theory Spec2Isabelle
  imports Complex_Main "HOL-Library.Sublist"
begin

section \<open>The EventBridge sink of kube-eventer (sinks/eventbridge/driver.go)\<close>

text \<open>
  The driver is embedded function by function. Go pointers to structs that the driver
  never tests against nil (the batch, its events, the URL) are the structs themselves;
  the two pointer fields it does test or dereference, \<open>client\<close> and \<open>akInfo\<close>, are
  options, and dereferencing an absent one is the panic of the Go runtime.
\<close>

subsection \<open>Values\<close>

text \<open>A Go \<open>error\<close> value, with its message.\<close>

datatype error = Error string

text \<open>A run-time panic; the only one the driver can raise on its own state.\<close>

datatype panic = NilPointerDereference

text \<open>An instant (\<open>time.Time\<close>), in nanoseconds since the Unix epoch.\<close>

type_synonym Time = int

definition Minute :: int where
  "Minute = 60 * 1000000000"

definition Before :: "Time \<Rightarrow> Time \<Rightarrow> bool" where
  "Before t u = (t < u)"

definition Add :: "Time \<Rightarrow> int \<Rightarrow> Time" where
  "Add t d = t + d"

text \<open>\<open>utils.AKInfo\<close>: the fields of the credential that the driver reads.\<close>

record AKInfo =
  AccessKeyId :: string
  AccessKeySecret :: string
  SecurityToken :: string
  Expiration :: string

text \<open>\<open>eventbridge.Config\<close>: the four fields that \<open>newClient\<close> sets.\<close>

record Config =
  cfg_AccessKeyId :: string
  cfg_AccessKeySecret :: string
  cfg_SecurityToken :: string
  cfg_Endpoint :: string

text \<open>
  \<open>eventbridge.Client\<close>: a handle made by the SDK. What the SDK keeps inside is not the
  driver's business; the model keeps the configuration it was made from and a serial
  number, which plays the part of the pointer's identity.
\<close>

datatype Client = Client (clientConfig: Config) (clientSerial: nat)

record RuntimeOptions =
  Autoretry :: bool

text \<open>\<open>v1.Event\<close>: the four fields the driver reads, and the rest of the record.\<close>

record Event =
  ev_APIVersion :: string
  ev_Kind :: string
  ev_Name :: string
  ev_Namespace :: string
  ev_payload :: string

record ObjectReference =
  o_APIVersion :: string
  o_Kind :: string
  o_Name :: string
  o_Namespace :: string

text \<open>\<open>eventbridge.CloudEvent\<close>, with the fields the fluent setters fill.\<close>

record CloudEvent =
  ce_Datacontenttype :: string
  ce_Data :: string
  ce_Id :: string
  ce_Source :: string
  ce_Time :: string
  ce_Subject :: string
  ce_Type :: string
  ce_Extensions :: "(string \<times> string) list"

text \<open>\<open>core.EventBatch\<close>.\<close>

record EventBatch =
  Timestamp :: Time
  Events :: "Event list"

text \<open>\<open>url.URL\<close>, reduced to what \<open>uri.Query()\<close> returns: a \<open>url.Values\<close> map.\<close>

record URL =
  Query :: "string \<rightharpoonup> string list"

text \<open>The sink itself.\<close>

record eventBridgeSink =
  client :: "Client option"
  akInfo :: "AKInfo option"
  clusterId :: string
  region :: string
  accountId :: string

subsection \<open>Constants of the driver\<close>

definition eventBridgeSinkName :: string where
  "eventBridgeSinkName = ''EventBridgeSink''"

definition defaultBusName :: string where
  "defaultBusName = ''default''"

definition eventBridgeEndpointSchema :: string where
  "eventBridgeEndpointSchema = ''%v.eventbridge.%v-vpc.aliyuncs.com''"

definition aliyunContainerServiceSource :: string where
  "aliyunContainerServiceSource = ''acs.cs''"

definition eventbridgeMaxBatchSize :: nat where
  "eventbridgeMaxBatchSize = 16"

definition defaultEventType :: string where
  "defaultEventType = ''cs:k8s:K8s-event-via-npd''"

subsection \<open>The outside world\<close>

text \<open>
  Everything the driver calls outside its own file is a field of the environment. A call
  whose answer may differ from one call to the next (the clock, the UUID generator, the
  metadata service, the SDK) takes the number of such calls made so far, so that an
  environment is one complete history of answers, and a statement for every environment
  is a statement for every behaviour of the outside. The pure library functions
  (\<open>time.Parse\<close>, \<open>Time.Format\<close>, \<open>json.Marshal\<close>, the kind-to-resource guess of
  apimachinery) depend on their arguments only. Following the convention of the Go
  libraries, a call that returns no error returns a non-nil value.
\<close>

record env =
  time_Now :: "nat \<Rightarrow> Time"
  time_Parse :: "string \<Rightarrow> string \<Rightarrow> error + Time"
  time_Format :: "string \<Rightarrow> Time \<Rightarrow> string"
  uuid_New :: "nat \<Rightarrow> string"
  json_Marshal :: "Event \<Rightarrow> error + string"
  UnsafeGuessKindToResource :: "string \<Rightarrow> string \<Rightarrow> string"
  ParseRegion :: "nat \<Rightarrow> error + string"
  ParseOwnerAccountId :: "nat \<Rightarrow> error + string"
  ParseAKInfo :: "nat \<Rightarrow> error + AKInfo"
  NewClient :: "nat \<Rightarrow> Config \<Rightarrow> error + Client"
  PutEventsWithOptions :: "nat \<Rightarrow> Client \<Rightarrow> CloudEvent list \<Rightarrow> RuntimeOptions \<Rightarrow> error option"

text \<open>
  The lines written through \<open>klog\<close>, one constructor for each call site of the driver,
  carrying the operands of its format string.
\<close>

datatype logline =
  ParseTimeFailed error
  | TokenExpired
  | TokenExpiresSoon
  | ConvertFailed Event error
  | PutFailed error

record world =
  ticks :: nat
  klog :: "logline list"

definition tick :: "world \<Rightarrow> world" where
  "tick w = w\<lparr>ticks := Suc (ticks w)\<rparr>"

definition klog_Error :: "logline \<Rightarrow> world \<Rightarrow> world" where
  "klog_Error l w = w\<lparr>klog := klog w @ [l]\<rparr>"

subsection \<open>Library functions on strings\<close>

text \<open>\<open>strings.Contains\<close>: the second string occurs in the first as a contiguous run.\<close>

fun strings_Contains :: "string \<Rightarrow> string \<Rightarrow> bool" where
  "strings_Contains [] substr = (substr = [])"
| "strings_Contains (c # s) substr = (prefix substr (c # s) \<or> strings_Contains s substr)"

text \<open>
  \<open>fmt.Sprintf\<close> for the calls the driver makes: the verbs \<open>%s\<close> and \<open>%v\<close> on string
  operands, each replaced by its operand, every other character copied. An operand is
  inserted as it is and not scanned for verbs. A verb without operand prints as Go
  prints it.
\<close>

fun fmt_Sprintf :: "string \<Rightarrow> string list \<Rightarrow> string" where
  "fmt_Sprintf [] args = []"
| "fmt_Sprintf [c] args = [c]"
| "fmt_Sprintf (c # d # f) args =
     (if c = CHR ''%'' \<and> (d = CHR ''v'' \<or> d = CHR ''s'') then
        (case args of
           [] \<Rightarrow> ''%!'' @ [d] @ ''(MISSING)'' @ fmt_Sprintf f []
         | a # as \<Rightarrow> a @ fmt_Sprintf f as)
      else c # fmt_Sprintf (d # f) args)"

subsection \<open>The credential freshness check\<close>

text \<open>
  \<open>isAkValid\<close> (lines 178 to 198). The clock is read twice. The result of
  \<open>t.Add(time.Minute * time.Duration(-10))\<close> on line 191 is not assigned: \<open>Add\<close>
  returns a new instant and leaves \<open>t\<close> as it was, so the second comparison is again
  with the expiry itself.
\<close>

definition isAkValid :: "env \<Rightarrow> eventBridgeSink \<Rightarrow> world \<Rightarrow> panic + (bool \<times> world)" where
  "isAkValid e ebSink w =
     (let layout = ''2006-01-02T15:04:05Z'' in
      case akInfo ebSink of
        None \<Rightarrow> Inl NilPointerDereference
      | Some ak \<Rightarrow>
          (case time_Parse e layout (Expiration ak) of
             Inl err \<Rightarrow> Inr (False, klog_Error (ParseTimeFailed err) w)
           | Inr t \<Rightarrow>
               (let now1 = time_Now e (ticks w); w1 = tick w in
                if Before t now1 then Inr (False, klog_Error TokenExpired w1)
                else
                  (let discarded = Add t (Minute * (- 10));
                       now2 = time_Now e (ticks w1); w2 = tick w1 in
                   if Before t now2 then Inr (False, klog_Error TokenExpiresSoon w2)
                   else Inr (True, w2)))))"

subsection \<open>The client and its credential\<close>

text \<open>
  \<open>newClient\<close> (lines 153 to 176). The two fields of the sink are assigned on lines 172
  and 173 only, after both outside calls have returned without error.
\<close>

definition newClient ::
  "env \<Rightarrow> eventBridgeSink \<Rightarrow> world \<Rightarrow> (error + Client) \<times> eventBridgeSink \<times> world" where
  "newClient e ebSink w =
     (let endpoint = fmt_Sprintf eventBridgeEndpointSchema [accountId ebSink, region ebSink] in
      case ParseAKInfo e (ticks w) of
        Inl err \<Rightarrow> (Inl err, ebSink, tick w)
      | Inr ak \<Rightarrow>
          (let w1 = tick w;
               config = \<lparr>cfg_AccessKeyId = AccessKeyId ak,
                         cfg_AccessKeySecret = AccessKeySecret ak,
                         cfg_SecurityToken = SecurityToken ak,
                         cfg_Endpoint = endpoint\<rparr> in
           case NewClient e (ticks w1) config of
             Inl err \<Rightarrow> (Inl err, ebSink, tick w1)
           | Inr c \<Rightarrow> (Inr c, ebSink\<lparr>client := Some c, akInfo := Some ak\<rparr>, tick w1)))"

text \<open>
  \<open>getClient\<close> (lines 146 to 151). The conjunction of Go evaluates its right operand
  only when the left one holds: without a cached client the freshness check is not run.
\<close>

definition getClient ::
  "env \<Rightarrow> eventBridgeSink \<Rightarrow> world \<Rightarrow> panic + ((error + Client) \<times> eventBridgeSink \<times> world)" where
  "getClient e ebSink w =
     (case client ebSink of
        None \<Rightarrow> Inr (newClient e ebSink w)
      | Some c \<Rightarrow>
          (case isAkValid e ebSink w of
             Inl p \<Rightarrow> Inl p
           | Inr (valid, w1) \<Rightarrow>
               if valid then Inr (Inr c, ebSink, w1) else Inr (newClient e ebSink w1)))"

text \<open>\<open>putEvents\<close> (lines 115 to 124).\<close>

definition putEvents ::
  "env \<Rightarrow> CloudEvent list \<Rightarrow> eventBridgeSink \<Rightarrow> world \<Rightarrow>
     panic + (error option \<times> eventBridgeSink \<times> world)" where
  "putEvents e events ebSink w =
     (case getClient e ebSink w of
        Inl p \<Rightarrow> Inl p
      | Inr (Inl err, s1, w1) \<Rightarrow> Inr (Some err, s1, w1)
      | Inr (Inr ebClient, s1, w1) \<Rightarrow>
          (let runtime = \<lparr>Autoretry = True\<rparr> in
           Inr (PutEventsWithOptions e (ticks w1) ebClient events runtime, s1, tick w1)))"

subsection \<open>Translation of one event\<close>

text \<open>\<open>createEventSubject\<close> (lines 202 to 213).\<close>

definition createEventSubject :: "env \<Rightarrow> eventBridgeSink \<Rightarrow> ObjectReference \<Rightarrow> string" where
  "createEventSubject e ebSink ref =
     (let gvr_Resource = UnsafeGuessKindToResource e (o_APIVersion ref) (o_Kind ref);
          versionNameHack = o_APIVersion ref;
          versionNameHack =
            (if strings_Contains versionNameHack ''.'' \<and> \<not> strings_Contains versionNameHack ''/''
             then versionNameHack @ ''/versionUnknown'' else versionNameHack) in
      fmt_Sprintf ''acs:cs:%s:%s:%s/apis/%s/namespaces/%s/%s/%s''
        [region ebSink, accountId ebSink, clusterId ebSink, versionNameHack,
         o_Namespace ref, gvr_Resource, o_Name ref])"

text \<open>
  \<open>toCloudEvent\<close> (lines 85 to 113). The setters are chained, so the UUID is drawn
  before the clock is read.
\<close>

definition toCloudEvent ::
  "env \<Rightarrow> eventBridgeSink \<Rightarrow> Event \<Rightarrow> world \<Rightarrow> (error + CloudEvent) \<times> world" where
  "toCloudEvent e ebSink event w =
     (let resourceName = ev_Name event;
          kind = ev_Kind event;
          namespace = ev_Namespace event;
          subject = createEventSubject e ebSink
                      \<lparr>o_APIVersion = ev_APIVersion event, o_Kind = kind,
                       o_Name = resourceName, o_Namespace = namespace\<rparr> in
      case json_Marshal e event of
        Inl err \<Rightarrow> (Inl err, w)
      | Inr dataBytes \<Rightarrow>
          (let ident = uuid_New e (ticks w); w1 = tick w;
               now = time_Now e (ticks w1); w2 = tick w1 in
           (Inr \<lparr>ce_Datacontenttype = ''application/json'',
                 ce_Data = dataBytes,
                 ce_Id = ident,
                 ce_Source = aliyunContainerServiceSource,
                 ce_Time = time_Format e ''2006-01-02T15:04:05Z07:00'' now,
                 ce_Subject = subject,
                 ce_Type = defaultEventType,
                 ce_Extensions = [(''aliyuneventbusname'', defaultBusName)]\<rparr>, w2)))"

subsection \<open>Export in chunks\<close>

text \<open>
  \<open>putEventsImpl\<close>: the dispatch function handed to \<open>exportEventsInBatch\<close>. The method
  value \<open>ebSink.putEvents\<close> shares the sink with its caller, so the function takes the
  sink and the world and returns them.
\<close>

type_synonym putEventsImpl =
  "CloudEvent list \<Rightarrow> eventBridgeSink \<Rightarrow> world \<Rightarrow> panic + (error option \<times> eventBridgeSink \<times> world)"

text \<open>
  The number of chunks, line 127: \<open>int(math.Ceil(float64(len(batch.Events)) / 16))\<close>.
  The conversion to \<open>float64\<close> is exact below \<open>2^53\<close>, far above the length of any slice
  of pointers the Go runtime can allocate, and the division by a power of two and the
  ceiling are exact; so the value is the ceiling of the quotient of the reals.
\<close>

definition batchSize :: "nat \<Rightarrow> nat" where
  "batchSize n = nat \<lceil>real n / real eventbridgeMaxBatchSize\<rceil>"

text \<open>The inner loop, lines 130 to 137, from the index \<open>j\<close> on.\<close>

function convertLoop ::
  "env \<Rightarrow> eventBridgeSink \<Rightarrow> Event list \<Rightarrow> nat \<Rightarrow> nat \<Rightarrow> CloudEvent list \<Rightarrow> world \<Rightarrow>
     CloudEvent list \<times> world" where
  "convertLoop e ebSink evs i j events w =
     (if j < (i + 1) * eventbridgeMaxBatchSize \<and> j < length evs then
        (case toCloudEvent e ebSink (evs ! j) w of
           (Inl err, w1) \<Rightarrow>
             convertLoop e ebSink evs i (j + 1) events (klog_Error (ConvertFailed (evs ! j) err) w1)
         | (Inr cloudEvent, w1) \<Rightarrow>
             convertLoop e ebSink evs i (j + 1) (events @ [cloudEvent]) w1)
      else (events, w))"
  by pat_completeness auto
termination
  by (relation "measure (\<lambda>(e, ebSink, evs, i, j, events, w). length evs - j)") auto

text \<open>The outer loop, lines 128 to 143, from the index \<open>i\<close> on.\<close>

function exportLoop ::
  "env \<Rightarrow> Event list \<Rightarrow> putEventsImpl \<Rightarrow> nat \<Rightarrow> nat \<Rightarrow> eventBridgeSink \<Rightarrow> world \<Rightarrow>
     panic + (eventBridgeSink \<times> world)" where
  "exportLoop e evs putEventsFn n i ebSink w =
     (if i < n then
        (case convertLoop e ebSink evs i (i * eventbridgeMaxBatchSize) [] w of
           (events, w1) \<Rightarrow>
             (case putEventsFn events ebSink w1 of
                Inl p \<Rightarrow> Inl p
              | Inr (None, s2, w2) \<Rightarrow> exportLoop e evs putEventsFn n (i + 1) s2 w2
              | Inr (Some err, s2, w2) \<Rightarrow>
                  exportLoop e evs putEventsFn n (i + 1) s2 (klog_Error (PutFailed err) w2)))
      else Inr (ebSink, w))"
  by pat_completeness auto
termination
  by (relation "measure (\<lambda>(e, evs, putEventsFn, n, i, ebSink, w). n - i)") auto

text \<open>\<open>exportEventsInBatch\<close> (lines 126 to 144).\<close>

definition exportEventsInBatch ::
  "env \<Rightarrow> EventBatch \<Rightarrow> putEventsImpl \<Rightarrow> eventBridgeSink \<Rightarrow> world \<Rightarrow>
     panic + (eventBridgeSink \<times> world)" where
  "exportEventsInBatch e batch putEventsFn ebSink w =
     exportLoop e (Events batch) putEventsFn (batchSize (length (Events batch))) 0 ebSink w"

text \<open>\<open>ExportEvents\<close> (lines 74 to 79).\<close>

definition ExportEvents ::
  "env \<Rightarrow> EventBatch \<Rightarrow> eventBridgeSink \<Rightarrow> world \<Rightarrow> panic + (eventBridgeSink \<times> world)" where
  "ExportEvents e batch ebSink w =
     (if length (Events batch) = 0 then Inr (ebSink, w)
      else exportEventsInBatch e batch (putEvents e) ebSink w)"

subsection \<open>Construction\<close>

text \<open>
  \<open>NewEventBridgeSink\<close> (lines 40 to 65). Reading a key that a Go map does not hold
  gives the nil slice, of length 0.
\<close>

definition NewEventBridgeSink :: "env \<Rightarrow> URL \<Rightarrow> world \<Rightarrow> (error + eventBridgeSink) \<times> world" where
  "NewEventBridgeSink e uri w =
     (let ebSink = \<lparr>client = None, akInfo = None, clusterId = [], region = [], accountId = []\<rparr>;
          opts = Query uri;
          values = (case opts ''clusterId'' of None \<Rightarrow> [] | Some vs \<Rightarrow> vs) in
      if length values \<ge> 1 then
        (let ebSink = ebSink\<lparr>clusterId := values ! 0\<rparr> in
         case ParseRegion e (ticks w) of
           Inl err \<Rightarrow> (Inl err, tick w)
         | Inr region' \<Rightarrow>
             (let w1 = tick w in
              case ParseOwnerAccountId e (ticks w1) of
                Inl err \<Rightarrow> (Inl err, tick w1)
              | Inr accountId' \<Rightarrow>
                  (Inr (ebSink\<lparr>region := region', accountId := accountId'\<rparr>), tick w1)))
      else (Inl (Error ''please provide kubernetes cluster id for EventBridge''), w))"

definition Name :: "eventBridgeSink \<Rightarrow> string" where
  "Name ebSink = eventBridgeSinkName"

definition Stop :: "eventBridgeSink \<Rightarrow> world \<Rightarrow> eventBridgeSink \<times> world" where
  "Stop ebSink w = (ebSink, w)"

subsection \<open>The invariant of the two cached fields\<close>

definition sink_inv :: "eventBridgeSink \<Rightarrow> bool" where
  "sink_inv ebSink = (client ebSink \<noteq> None \<longrightarrow> akInfo ebSink \<noteq> None)"

subsection \<open>The export, as the specification words it\<close>

text \<open>
  The specification of the exporter, section 4.3, speaks of lists: the batch is cut into
  contiguous chunks of at most 16 events; every event of a chunk is translated on its
  own, a failing one is logged and left out; the chunk, whatever is left of it, is
  dispatched once; a failing dispatch is logged and the next chunk follows. These
  definitions follow those words; the loops above are compared with them.
\<close>

function chunks :: "nat \<Rightarrow> 'a list \<Rightarrow> 'a list list" where
  "chunks k xs = (if k = 0 \<or> xs = [] then [] else take k xs # chunks k (drop k xs))"
  by pat_completeness auto
termination
  by (relation "measure (\<lambda>(k, xs). length xs)") auto

fun translateChunk ::
  "env \<Rightarrow> eventBridgeSink \<Rightarrow> Event list \<Rightarrow> world \<Rightarrow> CloudEvent list \<times> world" where
  "translateChunk e ebSink [] w = ([], w)"
| "translateChunk e ebSink (ev # evs) w =
     (case toCloudEvent e ebSink ev w of
        (Inl err, w1) \<Rightarrow> translateChunk e ebSink evs (klog_Error (ConvertFailed ev err) w1)
      | (Inr cloudEvent, w1) \<Rightarrow>
          (case translateChunk e ebSink evs w1 of
             (cloudEvents, w2) \<Rightarrow> (cloudEvent # cloudEvents, w2)))"

text \<open>A dispatch function that returns, with or without an error, and never panics.\<close>

type_synonym dispatch =
  "CloudEvent list \<Rightarrow> eventBridgeSink \<Rightarrow> world \<Rightarrow> error option \<times> eventBridgeSink \<times> world"

definition returning :: "dispatch \<Rightarrow> putEventsImpl" where
  "returning q = (\<lambda>events ebSink w. Inr (q events ebSink w))"

definition dispatchChunk ::
  "env \<Rightarrow> dispatch \<Rightarrow> eventBridgeSink \<times> world \<Rightarrow> Event list \<Rightarrow> eventBridgeSink \<times> world" where
  "dispatchChunk e q sw chunk =
     (case sw of
        (ebSink, w) \<Rightarrow>
          (case translateChunk e ebSink chunk w of
             (events, w1) \<Rightarrow>
               (case q events ebSink w1 of
                  (None, s2, w2) \<Rightarrow> (s2, w2)
                | (Some err, s2, w2) \<Rightarrow> (s2, klog_Error (PutFailed err) w2))))"

text \<open>
  What \<open>putEvents\<close> returns when it returns; from a sink that satisfies the invariant
  it always does.
\<close>

definition putEventsResult :: "env \<Rightarrow> dispatch" where
  "putEventsResult e events ebSink w = projr (putEvents e events ebSink w)"

text \<open>The events of a chunk that translate, and their payloads, in the order of the chunk.\<close>

definition translatable :: "env \<Rightarrow> Event list \<Rightarrow> Event list" where
  "translatable e evs = filter (\<lambda>ev. \<not> isl (json_Marshal e ev)) evs"

definition payloads :: "env \<Rightarrow> Event list \<Rightarrow> string list" where
  "payloads e evs = map (\<lambda>ev. projr (json_Marshal e ev)) (translatable e evs)"

definition subjectOf :: "env \<Rightarrow> eventBridgeSink \<Rightarrow> Event \<Rightarrow> string" where
  "subjectOf e ebSink ev =
     createEventSubject e ebSink
       \<lparr>o_APIVersion = ev_APIVersion ev, o_Kind = ev_Kind ev,
        o_Name = ev_Name ev, o_Namespace = ev_Namespace ev\<rparr>"

text \<open>The number of lines in the log that report a failed dispatch.\<close>

fun isPutFailed :: "logline \<Rightarrow> bool" where
  "isPutFailed (PutFailed err) = True"
| "isPutFailed l = False"

definition putFailures :: "world \<Rightarrow> nat" where
  "putFailures w = length (filter isPutFailed (klog w))"

text \<open>
  The version segment of a subject, as section 4.2 words it: the suffix is added when
  the version holds a dot and no slash.
\<close>

definition apiVersionSegment :: "string \<Rightarrow> string" where
  "apiVersionSegment v =
     (if CHR ''.'' \<in> set v \<and> CHR ''/'' \<notin> set v then v @ ''/versionUnknown'' else v)"

subsection \<open>A concrete environment\<close>

text \<open>
  An environment to run the driver in: a clock that starts at 2026-11-01T12:00:00Z and
  advances by a nanosecond with every call, a parser for the fixed-width UTC timestamps
  of the layout \<open>2006-01-02T15:04:05Z\<close> (Go's parser also takes a fraction after
  the seconds; this one does not), the pluralisation rules of apimachinery, a
  metadata service that answers, and an SDK that accepts everything. A serialiser that
  refuses one marked payload stands for \<open>json.Marshal\<close> returning an error.
\<close>

definition is_digit :: "char \<Rightarrow> bool" where
  "is_digit c = (48 \<le> (of_char c :: nat) \<and> (of_char c :: nat) \<le> 57)"

definition atoi :: "string \<Rightarrow> int" where
  "atoi s = foldl (\<lambda>a c. 10 * a + (int (of_char c) - 48)) 0 s"

definition isLeap :: "int \<Rightarrow> bool" where
  "isLeap y = (y mod 4 = 0 \<and> (y mod 100 \<noteq> 0 \<or> y mod 400 = 0))"

definition daysIn :: "int \<Rightarrow> int \<Rightarrow> int" where
  "daysIn m y =
     (if m = 2 then (if isLeap y then 29 else 28)
      else if m = 4 \<or> m = 6 \<or> m = 9 \<or> m = 11 then 30 else 31)"

definition daysSinceEpoch :: "int \<Rightarrow> int \<Rightarrow> int \<Rightarrow> int" where
  "daysSinceEpoch y m d =
     (let y' = (if m \<le> 2 then y - 1 else y);
          era = y' div 400;
          yoe = y' - era * 400;
          doy = (153 * (if m > 2 then m - 3 else m + 9) + 2) div 5 + d - 1;
          doe = yoe * 365 + yoe div 4 - yoe div 100 + doy in
      era * 146097 + doe - 719468)"

definition parseUTC :: "string \<Rightarrow> string \<Rightarrow> error + Time" where
  "parseUTC layout v =
     (if layout = ''2006-01-02T15:04:05Z'' \<and> length v = 20
         \<and> v ! 4 = CHR ''-'' \<and> v ! 7 = CHR ''-'' \<and> v ! 10 = CHR ''T''
         \<and> v ! 13 = CHR '':'' \<and> v ! 16 = CHR '':'' \<and> v ! 19 = CHR ''Z''
         \<and> list_all is_digit (take 4 v @ take 2 (drop 5 v) @ take 2 (drop 8 v)
              @ take 2 (drop 11 v) @ take 2 (drop 14 v) @ take 2 (drop 17 v))
      then
        (let y = atoi (take 4 v); m = atoi (take 2 (drop 5 v)); d = atoi (take 2 (drop 8 v));
             hh = atoi (take 2 (drop 11 v)); mm = atoi (take 2 (drop 14 v));
             ss = atoi (take 2 (drop 17 v)) in
         if 1 \<le> m \<and> m \<le> 12 \<and> 1 \<le> d \<and> d \<le> daysIn m y \<and> hh < 24 \<and> mm < 60 \<and> ss < 60
         then Inr ((daysSinceEpoch y m d * 86400 + hh * 3600 + mm * 60 + ss) * 1000000000)
         else Inl (Error ''parsing time: out of range''))
      else Inl (Error ''parsing time: cannot parse''))"

definition toLower :: "string \<Rightarrow> string" where
  "toLower s = map (\<lambda>c. if 65 \<le> (of_char c :: nat) \<and> (of_char c :: nat) \<le> 90
                          then char_of ((of_char c :: nat) + 32) else c) s"

definition guessResource :: "string \<Rightarrow> string \<Rightarrow> string" where
  "guessResource apiVersion kind =
     (let singular = toLower kind in
      if kind = [] then []
      else if suffix ''endpoints'' singular then singular
      else if last singular = CHR ''s'' then singular @ ''es''
      else if last singular = CHR ''y'' then butlast singular @ ''ies''
      else singular @ ''s'')"

definition noon :: Time where
  "noon = 1793534400000000000"

definition akUntil :: "string \<Rightarrow> AKInfo" where
  "akUntil expiry =
     \<lparr>AccessKeyId = ''STS.id'', AccessKeySecret = ''secret'', SecurityToken = ''token'',
      Expiration = expiry\<rparr>"

definition env0 :: env where
  "env0 =
     \<lparr>time_Now = (\<lambda>n. noon + int n),
      time_Parse = parseUTC,
      time_Format = (\<lambda>layout t. ''2026-11-01T12:00:00Z''),
      uuid_New = (\<lambda>n. ''00000000-0000-4000-8000-00000000000'' @ [char_of (48 + n mod 10)]),
      json_Marshal =
        (\<lambda>ev. if ev_payload ev = ''NaN'' then Inl (Error ''json: unsupported value: NaN'')
              else Inr (ev_Name ev @ '':'' @ ev_payload ev)),
      UnsafeGuessKindToResource = guessResource,
      ParseRegion = (\<lambda>n. Inr ''cn-hangzhou''),
      ParseOwnerAccountId = (\<lambda>n. Inr ''1234567890''),
      ParseAKInfo = (\<lambda>n. Inr (akUntil ''2026-11-01T13:00:00Z'')),
      NewClient = (\<lambda>n config. Inr (Client config n)),
      PutEventsWithOptions = (\<lambda>n c events runtime. None)\<rparr>"

definition world0 :: world where
  "world0 = \<lparr>ticks = 0, klog = []\<rparr>"

definition sink0 :: eventBridgeSink where
  "sink0 =
     \<lparr>client = None, akInfo = None, clusterId = ''c0ffee'', region = ''cn-hangzhou'',
      accountId = ''1234567890''\<rparr>"

definition client0 :: Client where
  "client0 =
     Client \<lparr>cfg_AccessKeyId = ''STS.id'', cfg_AccessKeySecret = ''secret'',
             cfg_SecurityToken = ''token'',
             cfg_Endpoint = ''1234567890.eventbridge.cn-hangzhou-vpc.aliyuncs.com''\<rparr> 0"

text \<open>A sink with a cached client whose credential expires at the given timestamp.\<close>

definition sinkUntil :: "string \<Rightarrow> eventBridgeSink" where
  "sinkUntil expiry = sink0\<lparr>client := Some client0, akInfo := Some (akUntil expiry)\<rparr>"

definition podEvent :: "string \<Rightarrow> string \<Rightarrow> Event" where
  "podEvent name payload =
     \<lparr>ev_APIVersion = ''v1'', ev_Kind = ''Pod'', ev_Name = name, ev_Namespace = ''default'',
      ev_payload = payload\<rparr>"

section \<open>Properties\<close>

subsection \<open>Evaluations in the concrete environment\<close>

lemma parse_1205: "parseUTC ''2006-01-02T15:04:05Z'' ''2026-11-01T12:05:00Z'' = Inr (noon + 5 * Minute)"
  by code_simp

lemma parse_1220: "parseUTC ''2006-01-02T15:04:05Z'' ''2026-11-01T12:20:00Z'' = Inr (noon + 20 * Minute)"
  by code_simp

lemma parse_soon: "parseUTC ''2006-01-02T15:04:05Z'' ''soon'' = Inl (Error ''parsing time: cannot parse'')"
  by code_simp

lemma env0_simps [simp]:
  "time_Now env0 n = noon + int n"
  "time_Parse env0 = parseUTC"
  "json_Marshal env0 ev =
     (if ev_payload ev = ''NaN'' then Inl (Error ''json: unsupported value: NaN'')
      else Inr (ev_Name ev @ '':'' @ ev_payload ev))"
  "UnsafeGuessKindToResource env0 = guessResource"
  "ParseRegion env0 n = Inr ''cn-hangzhou''"
  "ParseOwnerAccountId env0 n = Inr ''1234567890''"
  "ParseAKInfo env0 n = Inr (akUntil ''2026-11-01T13:00:00Z'')"
  "NewClient env0 n config = Inr (Client config n)"
  "PutEventsWithOptions env0 n c events runtime = None"
  by (simp_all add: env0_def)

lemma sinkUntil_simps [simp]:
  "client (sinkUntil x) = Some client0"
  "akInfo (sinkUntil x) = Some (akUntil x)"
  "Expiration (akUntil x) = x"
  by (simp_all add: sinkUntil_def akUntil_def)

subsection \<open>The freshness check\<close>

text \<open>
  What the check computes once the expiry has parsed: it holds exactly when the expiry
  is not before either of the two readings of the clock. No margin enters.
\<close>

lemma isAkValid_parsed:
  assumes "akInfo ebSink = Some ak"
    and "time_Parse e ''2006-01-02T15:04:05Z'' (Expiration ak) = Inr t"
  shows "\<exists>w'. isAkValid e ebSink w =
            Inr (time_Now e (ticks w) \<le> t \<and> time_Now e (Suc (ticks w)) \<le> t, w')"
  using assms by (auto simp: isAkValid_def Let_def Before_def tick_def klog_Error_def)

text \<open>
  C1. The claim: a credential is valid iff the current time is before the expiry and
  before the expiry minus ten minutes, so one that expires in five minutes is invalid.
  The code at that input: the stored expiry is 12:05:00, the clock reads 12:00:00, which
  is not before the expiry minus ten minutes, and the check answers valid, with nothing
  logged.
\<close>

theorem isAkValid_five_minutes_left:
  "time_Parse env0 ''2006-01-02T15:04:05Z''
       (Expiration (akUntil ''2026-11-01T12:05:00Z'')) = Inr (time_Now env0 0 + 5 * Minute)
   \<and> \<not> time_Now env0 0 < (time_Now env0 0 + 5 * Minute) - 10 * Minute
   \<and> isAkValid env0 (sinkUntil ''2026-11-01T12:05:00Z'') world0
       = Inr (True, \<lparr>ticks = 2, klog = []\<rparr>)"
  by (simp add: parse_1205 isAkValid_def Let_def Before_def tick_def world0_def Minute_def)

text \<open>
  C7. When the stored expiry does not parse under the layout, the check returns false,
  its only effect is one log line carrying the parser's error, and it neither panics
  nor returns an error (its result type has none).
\<close>

theorem isAkValid_unparsable:
  assumes "akInfo ebSink = Some ak"
    and "time_Parse e ''2006-01-02T15:04:05Z'' (Expiration ak) = Inl err"
  shows "isAkValid e ebSink w = Inr (False, w\<lparr>klog := klog w @ [ParseTimeFailed err]\<rparr>)"
  using assms by (simp add: isAkValid_def klog_Error_def)

theorem isAkValid_unparsable_witness:
  "akInfo (sinkUntil ''soon'') = Some (akUntil ''soon'')
   \<and> time_Parse env0 ''2006-01-02T15:04:05Z'' (Expiration (akUntil ''soon''))
       = Inl (Error ''parsing time: cannot parse'')
   \<and> isAkValid env0 (sinkUntil ''soon'') world0
       = Inr (False, \<lparr>ticks = 0, klog = [ParseTimeFailed (Error ''parsing time: cannot parse'')]\<rparr>)"
  using isAkValid_unparsable [of "sinkUntil ''soon''" "akUntil ''soon''" env0
      "Error ''parsing time: cannot parse''" world0]
  by (simp add: parse_soon world0_def)

subsection \<open>The subject of an envelope\<close>

lemma strings_Contains_char: "strings_Contains s [c] = (c \<in> set s)"
  by (induction s) auto

lemma Sprintf_endpoint:
  "fmt_Sprintf eventBridgeEndpointSchema [a, r] = a @ ''.eventbridge.'' @ r @ ''-vpc.aliyuncs.com''"
  by (simp add: eventBridgeEndpointSchema_def)

lemma Sprintf_subject:
  "fmt_Sprintf ''acs:cs:%s:%s:%s/apis/%s/namespaces/%s/%s/%s'' [r, a, c, v, n, k, m] =
     ''acs:cs:'' @ r @ '':'' @ a @ '':'' @ c @ ''/apis/'' @ v @ ''/namespaces/'' @ n @ ''/'' @ k @ ''/'' @ m"
  by simp

lemma createEventSubject_eq:
  "createEventSubject e ebSink ref =
     ''acs:cs:'' @ region ebSink @ '':'' @ accountId ebSink @ '':'' @ clusterId ebSink
       @ ''/apis/'' @ apiVersionSegment (o_APIVersion ref)
       @ ''/namespaces/'' @ o_Namespace ref
       @ ''/'' @ UnsafeGuessKindToResource e (o_APIVersion ref) (o_Kind ref)
       @ ''/'' @ o_Name ref"
  unfolding createEventSubject_def Let_def Sprintf_subject apiVersionSegment_def strings_Contains_char
  by simp

lemma toCloudEvent_subject:
  "toCloudEvent e ebSink ev w = (Inr cloudEvent, w') \<Longrightarrow> ce_Subject cloudEvent = subjectOf e ebSink ev"
  by (auto simp: toCloudEvent_def subjectOf_def Let_def split: sum.splits)

lemma sink0_simps [simp]:
  "client sink0 = None" "akInfo sink0 = None" "clusterId sink0 = ''c0ffee''"
  "region sink0 = ''cn-hangzhou''" "accountId sink0 = ''1234567890''"
  "ticks world0 = 0" "klog world0 = []"
  by (simp_all add: sink0_def world0_def)

text \<open>
  C5. The subject of the envelope of an event, and of any object reference, is the
  prefix \<open>acs:cs:\<close>, region, account and cluster, then \<open>/apis/\<close> and the version
  segment, \<open>/namespaces/\<close> and the namespace, the guessed resource and the name. The
  version segment is the API version, with \<open>/versionUnknown\<close> appended exactly when
  the version holds a dot and no slash.
\<close>

theorem subject_of_envelope:
  "(toCloudEvent e ebSink ev w = (Inr cloudEvent, w') \<longrightarrow>
      ce_Subject cloudEvent =
        ''acs:cs:'' @ region ebSink @ '':'' @ accountId ebSink @ '':'' @ clusterId ebSink
          @ ''/apis/'' @ apiVersionSegment (ev_APIVersion ev)
          @ ''/namespaces/'' @ ev_Namespace ev
          @ ''/'' @ UnsafeGuessKindToResource e (ev_APIVersion ev) (ev_Kind ev)
          @ ''/'' @ ev_Name ev)
   \<and> createEventSubject e ebSink ref =
        ''acs:cs:'' @ region ebSink @ '':'' @ accountId ebSink @ '':'' @ clusterId ebSink
          @ ''/apis/'' @ apiVersionSegment (o_APIVersion ref)
          @ ''/namespaces/'' @ o_Namespace ref
          @ ''/'' @ UnsafeGuessKindToResource e (o_APIVersion ref) (o_Kind ref)
          @ ''/'' @ o_Name ref
   \<and> (apiVersionSegment v = v @ ''/versionUnknown'' \<longleftrightarrow> CHR ''.'' \<in> set v \<and> CHR ''/'' \<notin> set v)
   \<and> (apiVersionSegment v = v \<longleftrightarrow> \<not> (CHR ''.'' \<in> set v \<and> CHR ''/'' \<notin> set v))
   \<and> apiVersionSegment ''apps/v1'' = ''apps/v1''
   \<and> apiVersionSegment ''v1'' = ''v1''
   \<and> apiVersionSegment ''foo.bar'' = ''foo.bar/versionUnknown''"
proof -
  have "toCloudEvent e ebSink ev w = (Inr cloudEvent, w') \<longrightarrow>
      ce_Subject cloudEvent = subjectOf e ebSink ev"
    using toCloudEvent_subject by blast
  moreover have "apiVersionSegment ''apps/v1'' = ''apps/v1''"
    "apiVersionSegment ''v1'' = ''v1''"
    "apiVersionSegment ''foo.bar'' = ''foo.bar/versionUnknown''"
    by (simp_all add: apiVersionSegment_def)
  moreover have "apiVersionSegment v = v @ ''/versionUnknown'' \<longleftrightarrow> CHR ''.'' \<in> set v \<and> CHR ''/'' \<notin> set v"
    "apiVersionSegment v = v \<longleftrightarrow> \<not> (CHR ''.'' \<in> set v \<and> CHR ''/'' \<notin> set v)"
    by (simp_all add: apiVersionSegment_def)
  ultimately show ?thesis
    by (simp add: subjectOf_def createEventSubject_eq)
qed


lemma guess_pod: "guessResource ''foo.bar'' ''Pod'' = ''pods''"
  by code_simp

theorem subject_of_envelope_witness:
  "ce_Subject (projr (fst (toCloudEvent env0 sink0
       \<lparr>ev_APIVersion = ''foo.bar'', ev_Kind = ''Pod'', ev_Name = ''web-0'',
        ev_Namespace = ''default'', ev_payload = ''{}''\<rparr> world0)))
     = ''acs:cs:cn-hangzhou:1234567890:c0ffee/apis/foo.bar/versionUnknown/namespaces/default/pods/web-0''"
  using subject_of_envelope [of env0 sink0
      "\<lparr>ev_APIVersion = ''foo.bar'', ev_Kind = ''Pod'', ev_Name = ''web-0'',
        ev_Namespace = ''default'', ev_payload = ''{}''\<rparr>" world0
      "projr (fst (toCloudEvent env0 sink0
       \<lparr>ev_APIVersion = ''foo.bar'', ev_Kind = ''Pod'', ev_Name = ''web-0'',
        ev_Namespace = ''default'', ev_payload = ''{}''\<rparr> world0))"
      "tick (tick world0)"]
  by (simp add: toCloudEvent_def Let_def sink0_def guess_pod apiVersionSegment_def)

subsection \<open>The client\<close>

text \<open>
  C6. Without a cached client, or with one whose credential fails the check,
  \<open>getClient\<close> is \<open>newClient\<close>; with one whose credential passes, it returns the
  cached client and leaves the sink alone. \<open>newClient\<close> returns the error of the
  credential fetch, and otherwise hands the SDK a configuration with the credential and
  the endpoint \<open>{accountId}.eventbridge.{region}-vpc.aliyuncs.com\<close>, stores the
  client it gets with the credential, and returns it.
\<close>

theorem getClient_cases:
  "(client ebSink = None \<longrightarrow> getClient e ebSink w = Inr (newClient e ebSink w))
   \<and> (client ebSink = Some c \<and> isAkValid e ebSink w = Inr (True, w1) \<longrightarrow>
        getClient e ebSink w = Inr (Inr c, ebSink, w1))
   \<and> (client ebSink = Some c \<and> isAkValid e ebSink w = Inr (False, w1) \<longrightarrow>
        getClient e ebSink w = Inr (newClient e ebSink w1))
   \<and> (ParseAKInfo e (ticks w) = Inl err \<longrightarrow> newClient e ebSink w = (Inl err, ebSink, tick w))
   \<and> (ParseAKInfo e (ticks w) = Inr ak
        \<and> NewClient e (Suc (ticks w))
            \<lparr>cfg_AccessKeyId = AccessKeyId ak, cfg_AccessKeySecret = AccessKeySecret ak,
             cfg_SecurityToken = SecurityToken ak,
             cfg_Endpoint = accountId ebSink @ ''.eventbridge.'' @ region ebSink @ ''-vpc.aliyuncs.com''\<rparr>
            = Inr c' \<longrightarrow>
        newClient e ebSink w
          = (Inr c', ebSink\<lparr>client := Some c', akInfo := Some ak\<rparr>, tick (tick w)))"
  by (simp add: getClient_def newClient_def Let_def Sprintf_endpoint tick_def)

lemma valid_1220:
  "isAkValid env0 (sinkUntil ''2026-11-01T12:20:00Z'') world0 = Inr (True, tick (tick world0))"
  by (simp add: parse_1220 isAkValid_def Let_def Before_def tick_def world0_def Minute_def)

lemma invalid_soon:
  "isAkValid env0 (sinkUntil ''soon'') world0
     = Inr (False, klog_Error (ParseTimeFailed (Error ''parsing time: cannot parse'')) world0)"
  by (simp add: parse_soon isAkValid_def)

theorem getClient_cases_witness:
  "getClient env0 sink0 world0 = Inr (newClient env0 sink0 world0)
   \<and> getClient env0 (sinkUntil ''2026-11-01T12:20:00Z'') world0
       = Inr (Inr client0, sinkUntil ''2026-11-01T12:20:00Z'', tick (tick world0))
   \<and> getClient env0 (sinkUntil ''soon'') world0
       = Inr (newClient env0 (sinkUntil ''soon'')
               (klog_Error (ParseTimeFailed (Error ''parsing time: cannot parse'')) world0))
   \<and> newClient (env0\<lparr>ParseAKInfo := \<lambda>n. Inl (Error ''metadata service unreachable'')\<rparr>) sink0 world0
       = (Inl (Error ''metadata service unreachable''), sink0, tick world0)
   \<and> newClient env0 sink0 world0
       = (Inr (Client (clientConfig client0) 1),
          sink0\<lparr>client := Some (Client (clientConfig client0) 1),
                akInfo := Some (akUntil ''2026-11-01T13:00:00Z'')\<rparr>, tick (tick world0))"
  using getClient_cases [where ebSink = sink0 and e = env0 and w = world0
      and ak = "akUntil ''2026-11-01T13:00:00Z''" and c' = "Client (clientConfig client0) 1"]
    getClient_cases [where ebSink = "sinkUntil ''2026-11-01T12:20:00Z''" and e = env0
      and w = world0 and c = client0 and ?w1.0 = "tick (tick world0)"]
    getClient_cases [where ebSink = "sinkUntil ''soon''" and e = env0 and w = world0
      and c = client0
      and ?w1.0 = "klog_Error (ParseTimeFailed (Error ''parsing time: cannot parse'')) world0"]
    getClient_cases [where ebSink = sink0
      and e = "env0\<lparr>ParseAKInfo := \<lambda>n. Inl (Error ''metadata service unreachable'')\<rparr>"
      and w = world0 and err = "Error ''metadata service unreachable''"]
  by (simp add: valid_1220 invalid_soon client0_def akUntil_def)


text \<open>
  C9. When the credential fetch or the constructor of the SDK returns an error,
  \<open>newClient\<close> returns that error and the sink it leaves is the sink it found. When
  it returns a client, the two cached fields are that client and the credential just
  fetched: they change together or not at all.
\<close>

theorem newClient_failure_keeps_cache:
  "(ParseAKInfo e (ticks w) = Inl err \<longrightarrow>
      fst (newClient e ebSink w) = Inl err \<and> fst (snd (newClient e ebSink w)) = ebSink)
   \<and> (ParseAKInfo e (ticks w) = Inr ak
        \<and> NewClient e (Suc (ticks w))
            \<lparr>cfg_AccessKeyId = AccessKeyId ak, cfg_AccessKeySecret = AccessKeySecret ak,
             cfg_SecurityToken = SecurityToken ak,
             cfg_Endpoint = accountId ebSink @ ''.eventbridge.'' @ region ebSink @ ''-vpc.aliyuncs.com''\<rparr>
            = Inl err \<longrightarrow>
      fst (newClient e ebSink w) = Inl err \<and> fst (snd (newClient e ebSink w)) = ebSink)
   \<and> (newClient e ebSink w = (Inl err, s', w') \<longrightarrow> s' = ebSink)
   \<and> (newClient e ebSink w = (Inr c, s', w') \<longrightarrow>
        (\<exists>ak. ParseAKInfo e (ticks w) = Inr ak
           \<and> s' = ebSink\<lparr>client := Some c, akInfo := Some ak\<rparr>))"
  by (auto simp: newClient_def Let_def Sprintf_endpoint tick_def split: sum.splits)

theorem newClient_failure_keeps_cache_witness:
  "newClient (env0\<lparr>ParseAKInfo := \<lambda>n. Inl (Error ''metadata service unreachable'')\<rparr>)
       (sinkUntil ''soon'') world0
     = (Inl (Error ''metadata service unreachable''), sinkUntil ''soon'', tick world0)
   \<and> newClient (env0\<lparr>NewClient := \<lambda>n config. Inl (Error ''invalid endpoint'')\<rparr>)
       (sinkUntil ''soon'') world0
     = (Inl (Error ''invalid endpoint''), sinkUntil ''soon'', tick (tick world0))
   \<and> fst (snd (newClient env0 (sinkUntil ''soon'') world0))
     = (sinkUntil ''soon'')\<lparr>client := Some (Client (clientConfig client0) 1),
                            akInfo := Some (akUntil ''2026-11-01T13:00:00Z'')\<rparr>"
proof -
  let ?e1 = "env0\<lparr>ParseAKInfo := \<lambda>n. Inl (Error ''metadata service unreachable'')\<rparr>"
  let ?e2 = "env0\<lparr>NewClient := \<lambda>n config. Inl (Error ''invalid endpoint'')\<rparr>"
  let ?s = "sinkUntil ''soon''"
  have r1: "newClient ?e1 ?s world0 = (Inl (Error ''metadata service unreachable''), ?s, tick world0)"
    by (simp add: newClient_def)
  have r2: "newClient ?e2 ?s world0 = (Inl (Error ''invalid endpoint''), ?s, tick (tick world0))"
    by (simp add: newClient_def Let_def tick_def env0_def)
  have r3: "newClient env0 ?s world0
      = (Inr (Client (clientConfig client0) 1),
         ?s\<lparr>client := Some (Client (clientConfig client0) 1),
             akInfo := Some (akUntil ''2026-11-01T13:00:00Z'')\<rparr>, tick (tick world0))"
    by (simp add: newClient_def Let_def tick_def Sprintf_endpoint client0_def akUntil_def
        sinkUntil_def)
  from newClient_failure_keeps_cache [where e = ?e1 and ebSink = ?s and w = world0
      and err = "Error ''metadata service unreachable''" and s' = ?s and w' = "tick world0"]
    newClient_failure_keeps_cache [where e = ?e2 and ebSink = ?s and w = world0
      and err = "Error ''invalid endpoint''" and s' = ?s and w' = "tick (tick world0)"
      and ak = "akUntil ''2026-11-01T13:00:00Z''"]
    newClient_failure_keeps_cache [where e = env0 and ebSink = ?s and w = world0
      and c = "Client (clientConfig client0) 1"
      and s' = "fst (snd (newClient env0 ?s world0))" and w' = "tick (tick world0)"]
  show ?thesis
    by (simp add: r1 r2 r3)
qed

subsection \<open>Construction of the sink\<close>

text \<open>
  C8. Construction returns an error, and so no sink, when the query holds no value for
  \<open>clusterId\<close>, when the region resolver fails, and when the account resolver fails;
  with a cluster id it is the resolver's own error that is returned. When all three
  are there, the sink holds the first \<open>clusterId\<close> value, the region and the account,
  and no client or credential yet.
\<close>

theorem NewEventBridgeSink_cases:
  "((case Query uri ''clusterId'' of None \<Rightarrow> [] | Some vs \<Rightarrow> vs) = []
      \<or> isl (ParseRegion e (ticks w)) \<or> isl (ParseOwnerAccountId e (Suc (ticks w))) \<longrightarrow>
      isl (fst (NewEventBridgeSink e uri w)))
   \<and> (Query uri ''clusterId'' = Some (cid # others) \<and> ParseRegion e (ticks w) = Inl err \<longrightarrow>
        fst (NewEventBridgeSink e uri w) = Inl err)
   \<and> (Query uri ''clusterId'' = Some (cid # others) \<and> ParseRegion e (ticks w) = Inr r
        \<and> ParseOwnerAccountId e (Suc (ticks w)) = Inl err \<longrightarrow>
        fst (NewEventBridgeSink e uri w) = Inl err)
   \<and> (Query uri ''clusterId'' = Some (cid # others) \<and> ParseRegion e (ticks w) = Inr r
        \<and> ParseOwnerAccountId e (Suc (ticks w)) = Inr a \<longrightarrow>
        fst (NewEventBridgeSink e uri w)
          = Inr \<lparr>client = None, akInfo = None, clusterId = cid, region = r, accountId = a\<rparr>)"
  by (auto simp: NewEventBridgeSink_def Let_def tick_def split: sum.splits option.splits list.splits)

theorem NewEventBridgeSink_cases_witness:
  "isl (fst (NewEventBridgeSink env0 \<lparr>Query = Map.empty\<rparr> world0))
   \<and> fst (NewEventBridgeSink (env0\<lparr>ParseRegion := \<lambda>n. Inl (Error ''no region'')\<rparr>)
            \<lparr>Query = [''clusterId'' \<mapsto> [''c0ffee'']]\<rparr> world0) = Inl (Error ''no region'')
   \<and> fst (NewEventBridgeSink (env0\<lparr>ParseOwnerAccountId := \<lambda>n. Inl (Error ''no account'')\<rparr>)
            \<lparr>Query = [''clusterId'' \<mapsto> [''c0ffee'']]\<rparr> world0) = Inl (Error ''no account'')
   \<and> fst (NewEventBridgeSink env0 \<lparr>Query = [''clusterId'' \<mapsto> [''c0ffee'']]\<rparr> world0) = Inr sink0"
  using NewEventBridgeSink_cases [where e = env0 and uri = "\<lparr>Query = Map.empty\<rparr>" and w = world0]
    NewEventBridgeSink_cases [where e = "env0\<lparr>ParseRegion := \<lambda>n. Inl (Error ''no region'')\<rparr>"
      and uri = "\<lparr>Query = [''clusterId'' \<mapsto> [''c0ffee'']]\<rparr>" and w = world0
      and cid = "''c0ffee''" and others = "[]" and err = "Error ''no region''"]
    NewEventBridgeSink_cases [where e = "env0\<lparr>ParseOwnerAccountId := \<lambda>n. Inl (Error ''no account'')\<rparr>"
      and uri = "\<lparr>Query = [''clusterId'' \<mapsto> [''c0ffee'']]\<rparr>" and w = world0
      and cid = "''c0ffee''" and others = "[]" and err = "Error ''no account''"
      and r = "''cn-hangzhou''"]
    NewEventBridgeSink_cases [where e = env0
      and uri = "\<lparr>Query = [''clusterId'' \<mapsto> [''c0ffee'']]\<rparr>" and w = world0
      and cid = "''c0ffee''" and others = "[]" and r = "''cn-hangzhou''" and a = "''1234567890''"]
  by (simp add: sink0_def env0_def)


subsection \<open>The loops and the chunks\<close>

declare chunks.simps [simp del] convertLoop.simps [simp del] exportLoop.simps [simp del]

lemma chunks_Nil [simp]: "chunks k [] = []"
  by (simp add: chunks.simps)

lemma chunks_step: "0 < k \<Longrightarrow> xs \<noteq> [] \<Longrightarrow> chunks k xs = take k xs # chunks k (drop k xs)"
  by (subst chunks.simps) simp

lemma ceil_shift: "0 < k \<Longrightarrow> k \<le> (n::nat) \<Longrightarrow> (n + k - 1) div k = Suc ((n - k + k - 1) div k)"
proof -
  assume a: "0 < k" "k \<le> n"
  then have "n + k - 1 = (n - 1) + k" by simp
  also have "\<dots> div k = Suc ((n - 1) div k)" using a(1) by (simp only: div_add_self2)
  finally show ?thesis using a by simp
qed

lemma ceil_short: "0 < (n::nat) \<Longrightarrow> \<not> k \<le> n \<Longrightarrow> (n + k - 1) div k = 1"
proof -
  assume a: "0 < n" "\<not> k \<le> n"
  then have e: "n + k - 1 = (n - 1) + k" by simp
  have "(n - 1) div k = 0" using a by simp
  moreover have "(n - 1 + k) div k = Suc ((n - 1) div k)" using a by (simp only: div_add_self2)
  ultimately show ?thesis using e by simp
qed

lemma concat_chunks: "0 < k \<Longrightarrow> concat (chunks k xs) = xs"
proof (induction k xs rule: chunks.induct)
  case (1 k xs)
  show ?case
  proof (cases "xs = []")
    case True then show ?thesis by simp
  next
    case False
    with 1 show ?thesis by (simp add: chunks_step)
  qed
qed

lemma length_chunks: "0 < k \<Longrightarrow> length (chunks k xs) = (length xs + k - 1) div k"
proof (induction k xs rule: chunks.induct)
  case (1 k xs)
  show ?case
  proof (cases "xs = []")
    case True with 1 show ?thesis by simp
  next
    case False
    then have pos: "0 < length xs" by simp
    from 1 False have IH: "length (chunks k (drop k xs)) = (length xs - k + k - 1) div k"
      by simp
    have step: "length (chunks k xs) = Suc (length (chunks k (drop k xs)))"
      using False 1(2) by (simp add: chunks_step)
    show ?thesis
    proof (cases "k \<le> length xs")
      case True
      then show ?thesis using step IH ceil_shift [OF 1(2) True] by simp
    next
      case False
      then have "drop k xs = []" by simp
      then show ?thesis using step ceil_short [OF pos False] by simp
    qed
  qed
qed

lemma chunks_bounds: "0 < k \<Longrightarrow> c \<in> set (chunks k xs) \<Longrightarrow> c \<noteq> [] \<and> length c \<le> k"
proof (induction k xs rule: chunks.induct)
  case (1 k xs)
  show ?case
  proof (cases "xs = []")
    case True with 1 show ?thesis by simp
  next
    case False
    with 1 show ?thesis by (auto simp: chunks_step)
  qed
qed

lemma toCloudEvent_fail:
  "json_Marshal e ev = Inl err \<Longrightarrow> toCloudEvent e ebSink ev w = (Inl err, w)"
  by (simp add: toCloudEvent_def)

lemma toCloudEvent_ok:
  "json_Marshal e ev = Inr d \<Longrightarrow>
     \<exists>cloudEvent. toCloudEvent e ebSink ev w = (Inr cloudEvent, tick (tick w))
        \<and> ce_Data cloudEvent = d \<and> ce_Subject cloudEvent = subjectOf e ebSink ev"
  by (simp add: toCloudEvent_def Let_def subjectOf_def)

lemma convertLoop_stop:
  "\<not> (j < (i + 1) * eventbridgeMaxBatchSize \<and> j < length evs) \<Longrightarrow>
     convertLoop e ebSink evs i j events w = (events, w)"
  by (subst convertLoop.simps) auto

lemma convertLoop_fail:
  "j < (i + 1) * eventbridgeMaxBatchSize \<and> j < length evs \<Longrightarrow>
   toCloudEvent e ebSink (evs ! j) w = (Inl err, w1) \<Longrightarrow>
     convertLoop e ebSink evs i j events w
       = convertLoop e ebSink evs i (j + 1) events (klog_Error (ConvertFailed (evs ! j) err) w1)"
  by (subst convertLoop.simps) simp

lemma convertLoop_ok:
  "j < (i + 1) * eventbridgeMaxBatchSize \<and> j < length evs \<Longrightarrow>
   toCloudEvent e ebSink (evs ! j) w = (Inr cloudEvent, w1) \<Longrightarrow>
     convertLoop e ebSink evs i j events w
       = convertLoop e ebSink evs i (j + 1) (events @ [cloudEvent]) w1"
  by (subst convertLoop.simps) simp

lemma convertLoop_translateChunk:
  "hi = (i + 1) * eventbridgeMaxBatchSize \<Longrightarrow>
   convertLoop e ebSink evs i j events w =
     (case translateChunk e ebSink (take (hi - j) (drop j evs)) w of
        (cloudEvents, w') \<Rightarrow> (events @ cloudEvents, w'))"
proof (induction e ebSink evs i j events w rule: convertLoop.induct)
  case (1 e ebSink evs i j events w)
  note hi = \<open>hi = (i + 1) * eventbridgeMaxBatchSize\<close>
  show ?case
  proof (cases "j < (i + 1) * eventbridgeMaxBatchSize \<and> j < length evs")
    case False
    then have emp: "take (hi - j) (drop j evs) = []" using hi by auto
    show ?thesis
      by (simp add: convertLoop_stop [OF False] emp)
  next
    case True
    then have "j < hi" "j < length evs" using hi by auto
    then have split: "take (hi - j) (drop j evs) = evs ! j # take (hi - (j + 1)) (drop (j + 1) evs)"
      by (metis Cons_nth_drop_Suc Suc_diff_Suc Suc_eq_plus1 take_Suc_Cons)
    show ?thesis
    proof (cases "toCloudEvent e ebSink (evs ! j) w")
      case (Pair r w1)
      show ?thesis
      proof (cases r)
        case (Inl err)
        with Pair have tc: "toCloudEvent e ebSink (evs ! j) w = (Inl err, w1)" by simp
        show ?thesis
          using 1(1) [OF True tc [symmetric] refl hi]
          by (simp add: convertLoop_fail [OF True tc] split tc)
      next
        case (Inr cloudEvent)
        with Pair have tc: "toCloudEvent e ebSink (evs ! j) w = (Inr cloudEvent, w1)" by simp
        show ?thesis
          using 1(2) [OF True tc [symmetric] refl hi]
          by (simp add: convertLoop_ok [OF True tc] split tc split: prod.splits)
      qed
    qed
  qed
qed

lemma convertLoop_chunk:
  "convertLoop e ebSink evs i (i * eventbridgeMaxBatchSize) [] w
     = translateChunk e ebSink (take eventbridgeMaxBatchSize (drop (i * eventbridgeMaxBatchSize) evs)) w"
  using convertLoop_translateChunk [OF refl, of e ebSink evs i "i * eventbridgeMaxBatchSize" "[]" w]
  by (simp split: prod.splits)


lemma batchSize_div: "batchSize n = (n + 15) div 16"
proof -
  have "\<lceil>real n / real eventbridgeMaxBatchSize\<rceil> = - (- int n div 16)"
    using ceiling_divide_eq_div [of "int n" 16, where ?'a = real]
    by (simp add: eventbridgeMaxBatchSize_def)
  also have "\<dots> = (int n + 15) div 16" by linarith
  also have "\<dots> = int ((n + 15) div 16)" by (simp add: zdiv_int)
  finally show ?thesis
    by (simp add: batchSize_def)
qed

lemma exportLoop_stop: "\<not> i < n \<Longrightarrow> exportLoop e evs p n i ebSink w = Inr (ebSink, w)"
  by (subst exportLoop.simps) simp

lemma exportLoop_step:
  "i < n \<Longrightarrow>
   exportLoop e evs (returning q) n i ebSink w =
     (case dispatchChunk e q (ebSink, w)
             (take eventbridgeMaxBatchSize (drop (i * eventbridgeMaxBatchSize) evs)) of
        (s2, w2) \<Rightarrow> exportLoop e evs (returning q) n (i + 1) s2 w2)"
  by (subst exportLoop.simps)
    (simp add: convertLoop_chunk dispatchChunk_def returning_def split: prod.splits option.splits)

lemma exportLoop_fold:
  "n = batchSize (length evs) \<Longrightarrow>
   exportLoop e evs (returning q) n i ebSink w =
     Inr (foldl (dispatchChunk e q) (ebSink, w)
            (chunks eventbridgeMaxBatchSize (drop (i * eventbridgeMaxBatchSize) evs)))"
proof (induction "n - i" arbitrary: i ebSink w)
  case 0
  then have "\<not> i < n" by simp
  moreover from this 0(2) have "length evs \<le> i * eventbridgeMaxBatchSize"
    by (simp add: batchSize_div eventbridgeMaxBatchSize_def)
  ultimately show ?case
    by (simp add: exportLoop_stop)
next
  case (Suc d)
  then have lt: "i < n" by simp
  with Suc(3) have "i * eventbridgeMaxBatchSize < length evs"
    by (simp add: batchSize_div eventbridgeMaxBatchSize_def)
  then have ne: "drop (i * eventbridgeMaxBatchSize) evs \<noteq> []" by simp
  have k: "0 < eventbridgeMaxBatchSize" by (simp add: eventbridgeMaxBatchSize_def)
  have dd: "drop eventbridgeMaxBatchSize (drop (i * eventbridgeMaxBatchSize) evs)
      = drop ((i + 1) * eventbridgeMaxBatchSize) evs"
    by (simp add: add.commute)
  obtain s2 w2 where d: "dispatchChunk e q (ebSink, w)
      (take eventbridgeMaxBatchSize (drop (i * eventbridgeMaxBatchSize) evs)) = (s2, w2)"
    by (cases "dispatchChunk e q (ebSink, w)
      (take eventbridgeMaxBatchSize (drop (i * eventbridgeMaxBatchSize) evs))") blast
  from Suc(2) have "d = n - (i + 1)" by simp
  from Suc(1) [OF this Suc(3), of s2 w2]
  show ?case
    by (simp only: exportLoop_step [OF lt] chunks_step [OF k ne] d dd foldl_Cons prod.case)
qed


lemma translateChunk_facts:
  "map ce_Data (fst (translateChunk e ebSink c w)) = payloads e c
   \<and> map ce_Subject (fst (translateChunk e ebSink c w)) = map (subjectOf e ebSink) (translatable e c)
   \<and> klog (snd (translateChunk e ebSink c w))
       = klog w @ map (\<lambda>ev. ConvertFailed ev (projl (json_Marshal e ev)))
                    (filter (\<lambda>ev. isl (json_Marshal e ev)) c)"
proof (induction c arbitrary: w)
  case Nil
  show ?case by (simp add: payloads_def translatable_def)
next
  case (Cons ev c)
  show ?case
  proof (cases "json_Marshal e ev")
    case (Inl err)
    with Cons [of "klog_Error (ConvertFailed ev err) w"] show ?thesis
      by (simp add: toCloudEvent_fail payloads_def translatable_def klog_Error_def)
  next
    case (Inr d)
    from toCloudEvent_ok [OF Inr, of ebSink w] obtain cloudEvent where
      "toCloudEvent e ebSink ev w = (Inr cloudEvent, tick (tick w))"
      "ce_Data cloudEvent = d" "ce_Subject cloudEvent = subjectOf e ebSink ev" by blast
    with Inr Cons [of "tick (tick w)"] show ?thesis
      by (cases "translateChunk e ebSink c (tick (tick w))")
        (simp add: payloads_def translatable_def tick_def)
  qed
qed

lemma putFailures_translateChunk:
  "putFailures (snd (translateChunk e ebSink c w)) = putFailures w"
  by (simp add: putFailures_def translateChunk_facts filter_map o_def)

lemma exportLoop_unfold:
  "i < n \<Longrightarrow>
   exportLoop e evs p n i ebSink w =
     (case translateChunk e ebSink
             (take eventbridgeMaxBatchSize (drop (i * eventbridgeMaxBatchSize) evs)) w of
        (events, w1) \<Rightarrow>
          (case p events ebSink w1 of
             Inl x \<Rightarrow> Inl x
           | Inr (err, s2, w2) \<Rightarrow>
               exportLoop e evs p n (i + 1) s2
                 (case err of None \<Rightarrow> w2 | Some er \<Rightarrow> klog_Error (PutFailed er) w2)))"
  by (subst exportLoop.simps)
    (simp add: convertLoop_chunk split: prod.splits option.splits sum.splits)

lemma exportLoop_invariant:
  assumes p: "\<And>events s w. I s \<Longrightarrow>
        \<exists>r s' w'. p events s w = Inr (r, s', w') \<and> I s'
          \<and> putFailures w' = putFailures w \<and> (F \<longrightarrow> r \<noteq> None)"
    and "I ebSink"
  shows "\<exists>s' w'. exportLoop e evs p n i ebSink w = Inr (s', w') \<and> I s'
           \<and> (F \<longrightarrow> putFailures w' = putFailures w + (n - i))"
  using assms(2)
proof (induction "n - i" arbitrary: i ebSink w)
  case 0
  then have "\<not> i < n" by simp
  with 0 show ?case by (simp add: exportLoop_stop)
next
  case (Suc d)
  then have lt: "i < n" by simp
  let ?c = "take eventbridgeMaxBatchSize (drop (i * eventbridgeMaxBatchSize) evs)"
  obtain events w1 where t: "translateChunk e ebSink ?c w = (events, w1)"
    by (cases "translateChunk e ebSink ?c w") blast
  then have f1: "putFailures w1 = putFailures w"
    using putFailures_translateChunk [of e ebSink ?c w] by simp
  from p [OF Suc(3), of events w1] obtain r s2 w2 where
    r: "p events ebSink w1 = Inr (r, s2, w2)" "I s2" "putFailures w2 = putFailures w1"
       "F \<longrightarrow> r \<noteq> None" by blast
  let ?w3 = "case r of None \<Rightarrow> w2 | Some er \<Rightarrow> klog_Error (PutFailed er) w2"
  have f3: "F \<longrightarrow> putFailures ?w3 = Suc (putFailures w)"
    using r(3,4) f1 by (auto simp: putFailures_def klog_Error_def split: option.splits)
  from Suc(2) have "d = n - (i + 1)" by simp
  from Suc(1) [OF this r(2), of ?w3] obtain s' w' where
    x: "exportLoop e evs p n (i + 1) s2 ?w3 = Inr (s', w')" "I s'"
    "F \<longrightarrow> putFailures w' = putFailures ?w3 + (n - (i + 1))" by blast
  from x(3) f3 lt have "F \<longrightarrow> putFailures w' = putFailures w + (n - i)"
    by auto
  moreover have "exportLoop e evs p n i ebSink w = Inr (s', w')"
    using x(1) by (simp add: exportLoop_unfold [OF lt] t r(1))
  ultimately show ?case using x(2) by blast
qed


lemma chunks_single:
  "xs \<noteq> [] \<Longrightarrow> length xs \<le> k \<Longrightarrow> chunks k xs = [xs]"
proof -
  assume a: "xs \<noteq> []" "length xs \<le> k"
  then have k: "0 < k" by (cases xs) auto
  have "chunks k xs = take k xs # chunks k (drop k xs)" by (rule chunks_step [OF k a(1)])
  also have "take k xs = xs" using a(2) by simp
  also have "drop k xs = []" using a(2) by simp
  finally show ?thesis by simp
qed


lemma chunks_17: "chunks eventbridgeMaxBatchSize (replicate 17 x) = [replicate 16 x, [x]]"
proof -
  have "chunks 16 (replicate 17 x) = take 16 (replicate 17 x) # chunks 16 (drop 16 (replicate 17 x))"
    by (rule chunks_step) simp_all
  also have "take 16 (replicate 17 x) = replicate 16 x" by simp
  also have "drop 16 (replicate 17 x) = [x]" by simp
  also have "chunks 16 [x] = [[x]]" by (rule chunks_single) simp_all
  finally show ?thesis by (simp add: eventbridgeMaxBatchSize_def)
qed


subsection \<open>The export\<close>

text \<open>
  C4. The envelopes made from a chunk are those of its events that serialise, one for
  each and in order, carrying the payload and the subject of their event; every event
  that fails leaves one line in the log and nothing else. Each round of the outer loop
  hands the envelopes of its chunk to the dispatch function, whatever their number.
  For a batch of three events of which exactly one fails, the single dispatch receives
  two envelopes, those of the other two events.
\<close>

theorem translation_failures_isolated:
  "map ce_Data (fst (translateChunk e ebSink c w)) = payloads e c
   \<and> map ce_Subject (fst (translateChunk e ebSink c w)) = map (subjectOf e ebSink) (translatable e c)
   \<and> klog (snd (translateChunk e ebSink c w))
       = klog w @ map (\<lambda>ev. ConvertFailed ev (projl (json_Marshal e ev)))
                    (filter (\<lambda>ev. isl (json_Marshal e ev)) c)
   \<and> (i < n \<longrightarrow>
        exportLoop e evs p n i ebSink w =
          (case translateChunk e ebSink (take 16 (drop (i * 16) evs)) w of
             (events, w1) \<Rightarrow>
               (case p events ebSink w1 of
                  Inl x \<Rightarrow> Inl x
                | Inr (err, s2, w2) \<Rightarrow>
                    exportLoop e evs p n (i + 1) s2
                      (case err of None \<Rightarrow> w2 | Some er \<Rightarrow> klog_Error (PutFailed er) w2))))
   \<and> (length (Events batch) = 3
        \<and> length (filter (\<lambda>ev. isl (json_Marshal e ev)) (Events batch)) = 1 \<longrightarrow>
        (\<exists>events w1.
           translateChunk e ebSink (Events batch) w = (events, w1)
           \<and> length events = 2
           \<and> map ce_Data events = payloads e (Events batch)
           \<and> map ce_Subject events = map (subjectOf e ebSink) (translatable e (Events batch))
           \<and> exportEventsInBatch e batch (returning q) ebSink w
               = Inr (case q events ebSink w1 of
                        (None, s2, w2) \<Rightarrow> (s2, w2)
                      | (Some er, s2, w2) \<Rightarrow> (s2, klog_Error (PutFailed er) w2))))"
proof -
  have step: "i < n \<longrightarrow>
        exportLoop e evs p n i ebSink w =
          (case translateChunk e ebSink (take 16 (drop (i * 16) evs)) w of
             (events, w1) \<Rightarrow>
               (case p events ebSink w1 of
                  Inl x \<Rightarrow> Inl x
                | Inr (err, s2, w2) \<Rightarrow>
                    exportLoop e evs p n (i + 1) s2
                      (case err of None \<Rightarrow> w2 | Some er \<Rightarrow> klog_Error (PutFailed er) w2)))"
    using exportLoop_unfold [of i n e evs p ebSink w]
    by (simp add: eventbridgeMaxBatchSize_def)
  have three: "\<exists>events w1.
           translateChunk e ebSink (Events batch) w = (events, w1)
           \<and> length events = 2
           \<and> map ce_Data events = payloads e (Events batch)
           \<and> map ce_Subject events = map (subjectOf e ebSink) (translatable e (Events batch))
           \<and> exportEventsInBatch e batch (returning q) ebSink w
               = Inr (case q events ebSink w1 of
                        (None, s2, w2) \<Rightarrow> (s2, w2)
                      | (Some er, s2, w2) \<Rightarrow> (s2, klog_Error (PutFailed er) w2))"
    if len: "length (Events batch) = 3"
      and one: "length (filter (\<lambda>ev. isl (json_Marshal e ev)) (Events batch)) = 1"
  proof -
    obtain events w1 where t: "translateChunk e ebSink (Events batch) w = (events, w1)"
      by (cases "translateChunk e ebSink (Events batch) w") blast
    from translateChunk_facts [of e ebSink "Events batch" w] t
    have d: "map ce_Data events = payloads e (Events batch)"
      and sj: "map ce_Subject events = map (subjectOf e ebSink) (translatable e (Events batch))"
      by simp_all
    have "length (translatable e (Events batch)) = 2"
      using sum_length_filter_compl [of "\<lambda>ev. isl (json_Marshal e ev)" "Events batch"] len one
      by (simp add: translatable_def)
    with sj have l: "length events = 2"
      by (metis length_map)
    from len have "Events batch \<noteq> []" "length (Events batch) \<le> eventbridgeMaxBatchSize"
      by (auto simp: eventbridgeMaxBatchSize_def)
    then have "chunks eventbridgeMaxBatchSize (Events batch) = [Events batch]"
      by (rule chunks_single)
    then have "exportEventsInBatch e batch (returning q) ebSink w
        = Inr (dispatchChunk e q (ebSink, w) (Events batch))"
      using exportLoop_fold [OF refl, of e "Events batch" q 0 ebSink w]
      by (simp add: exportEventsInBatch_def)
    with t d sj l show ?thesis
      by (simp add: dispatchChunk_def)
  qed
  from step three translateChunk_facts [of e ebSink c w] show ?thesis
    by blast
qed


theorem translation_failures_isolated_witness:
  "length [podEvent ''a'' ''x'', podEvent ''b'' ''NaN'', podEvent ''c'' ''y''] = 3
   \<and> filter (\<lambda>ev. isl (json_Marshal env0 ev))
        [podEvent ''a'' ''x'', podEvent ''b'' ''NaN'', podEvent ''c'' ''y'']
       = [podEvent ''b'' ''NaN'']
   \<and> length (fst (translateChunk env0 sink0
        [podEvent ''a'' ''x'', podEvent ''b'' ''NaN'', podEvent ''c'' ''y''] world0)) = 2
   \<and> map ce_Data (fst (translateChunk env0 sink0
        [podEvent ''a'' ''x'', podEvent ''b'' ''NaN'', podEvent ''c'' ''y''] world0))
       = [''a:x'', ''c:y'']
   \<and> klog (snd (translateChunk env0 sink0
        [podEvent ''a'' ''x'', podEvent ''b'' ''NaN'', podEvent ''c'' ''y''] world0))
       = [ConvertFailed (podEvent ''b'' ''NaN'') (Error ''json: unsupported value: NaN'')]
   \<and> exportLoop env0 [podEvent ''b'' ''NaN''] (\<lambda>events s w. Inl NilPointerDereference)
        1 0 sink0 world0 = Inl NilPointerDereference"
proof -
  let ?evs = "[podEvent ''a'' ''x'', podEvent ''b'' ''NaN'', podEvent ''c'' ''y'']"
  let ?b = "\<lparr>Timestamp = noon, Events = ?evs\<rparr>"
  note t = translation_failures_isolated [where e = env0 and ebSink = sink0 and c = ?evs
      and w = world0 and batch = ?b and q = "\<lambda>events s w. (None, s, w)"
      and i = 0 and n = 1 and evs = "[podEvent ''b'' ''NaN'']"
      and p = "\<lambda>events s w. Inl NilPointerDereference"]
  have f: "filter (\<lambda>ev. isl (json_Marshal env0 ev)) ?evs = [podEvent ''b'' ''NaN'']"
    by (simp add: podEvent_def)
  have g: "payloads env0 ?evs = [''a:x'', ''c:y'']"
    by (simp add: payloads_def translatable_def podEvent_def)
  from t [THEN conjunct1] have d: "map ce_Data (fst (translateChunk env0 sink0 ?evs world0))
       = [''a:x'', ''c:y'']"
    by (simp only: g)
  from t [THEN conjunct2, THEN conjunct2, THEN conjunct1]
  have l: "klog (snd (translateChunk env0 sink0 ?evs world0))
       = [ConvertFailed (podEvent ''b'' ''NaN'') (Error ''json: unsupported value: NaN'')]"
    by (simp only: f) (simp add: podEvent_def)
  from t [THEN conjunct2, THEN conjunct2, THEN conjunct2, THEN conjunct1]
  have x: "exportLoop env0 [podEvent ''b'' ''NaN''] (\<lambda>events s w. Inl NilPointerDereference)
        1 0 sink0 world0 = Inl NilPointerDereference"
    by (simp split: prod.splits)
  from t [THEN conjunct2, THEN conjunct2, THEN conjunct2, THEN conjunct2]
  have n: "length (fst (translateChunk env0 sink0 ?evs world0)) = 2"
    using f by auto
  from f d l x n show ?thesis by simp
qed


subsection \<open>The cached fields along an export\<close>

lemma putFailures_tick [simp]: "putFailures (tick w) = putFailures w"
  by (simp add: putFailures_def tick_def)

lemma isAkValid_returns:
  "akInfo ebSink \<noteq> None \<Longrightarrow>
     \<exists>valid w'. isAkValid e ebSink w = Inr (valid, w') \<and> putFailures w' = putFailures w"
  by (auto simp: isAkValid_def Let_def putFailures_def tick_def klog_Error_def
      split: sum.splits)

lemma newClient_inv:
  "sink_inv ebSink \<Longrightarrow>
     \<exists>r s' w'. newClient e ebSink w = (r, s', w') \<and> sink_inv s' \<and> putFailures w' = putFailures w"
  by (auto simp: newClient_def Let_def sink_inv_def split: sum.splits)

lemma getClient_inv:
  assumes "sink_inv ebSink"
  shows "\<exists>r s' w'. getClient e ebSink w = Inr (r, s', w') \<and> sink_inv s'
           \<and> putFailures w' = putFailures w"
proof (cases "client ebSink")
  case None
  with newClient_inv [OF assms, of e w] show ?thesis
    by (auto simp: getClient_def)
next
  case (Some c)
  with assms have "akInfo ebSink \<noteq> None" by (simp add: sink_inv_def)
  from isAkValid_returns [OF this, of e w] obtain valid w1 where
    v: "isAkValid e ebSink w = Inr (valid, w1)" "putFailures w1 = putFailures w" by blast
  show ?thesis
  proof (cases valid)
    case True
    with v Some assms show ?thesis by (simp add: getClient_def)
  next
    case False
    with v Some newClient_inv [OF assms, of e w1] show ?thesis
      by (auto simp: getClient_def)
  qed
qed

lemma putEvents_inv:
  assumes "sink_inv ebSink"
  shows "\<exists>r s' w'. putEvents e events ebSink w = Inr (r, s', w') \<and> sink_inv s'
           \<and> putFailures w' = putFailures w
           \<and> ((\<forall>n c evs rt. PutEventsWithOptions e n c evs rt \<noteq> None) \<longrightarrow> r \<noteq> None)"
proof -
  from getClient_inv [OF assms, of e w] obtain r s1 w1 where
    g: "getClient e ebSink w = Inr (r, s1, w1)" "sink_inv s1" "putFailures w1 = putFailures w"
    by blast
  then show ?thesis
    by (cases r) (auto simp: putEvents_def)
qed

lemma exportLoop_putEvents:
  assumes "sink_inv ebSink"
  shows "\<exists>s' w'. exportLoop e evs (putEvents e) n i ebSink w = Inr (s', w') \<and> sink_inv s'
           \<and> ((\<forall>n c evs rt. PutEventsWithOptions e n c evs rt \<noteq> None) \<longrightarrow>
                 putFailures w' = putFailures w + (n - i))"
  by (rule exportLoop_invariant [where I = sink_inv and p = "putEvents e"
        and F = "\<forall>n c evs rt. PutEventsWithOptions e n c evs rt \<noteq> None", OF _ assms])
    (rule putEvents_inv)

lemma exportEventsInBatch_putEvents:
  assumes "sink_inv ebSink"
  shows "\<exists>s' w'. exportEventsInBatch e batch (putEvents e) ebSink w = Inr (s', w') \<and> sink_inv s'
           \<and> ((\<forall>n c evs rt. PutEventsWithOptions e n c evs rt \<noteq> None) \<longrightarrow>
                 putFailures w' = putFailures w + nat \<lceil>real (length (Events batch)) / 16\<rceil>)"
  using exportLoop_putEvents [OF assms, of e "Events batch" "batchSize (length (Events batch))" 0 w]
  by (simp add: exportEventsInBatch_def) (simp add: batchSize_def eventbridgeMaxBatchSize_def)

lemma ExportEvents_putEvents:
  assumes "sink_inv ebSink"
  shows "\<exists>s' w'. ExportEvents e batch ebSink w = Inr (s', w') \<and> sink_inv s'
           \<and> ((\<forall>n c evs rt. PutEventsWithOptions e n c evs rt \<noteq> None) \<longrightarrow>
                 putFailures w' = putFailures w + nat \<lceil>real (length (Events batch)) / 16\<rceil>)"
proof (cases "Events batch = []")
  case True
  with assms show ?thesis by (simp add: ExportEvents_def)
next
  case False
  with exportEventsInBatch_putEvents [OF assms, of e batch w] show ?thesis
    by (simp add: ExportEvents_def)
qed

lemma ceiling_17: "nat \<lceil>real (17::nat) / 16\<rceil> = 2"
  using batchSize_div [of 17] by (simp add: batchSize_def eventbridgeMaxBatchSize_def)

lemma exportLoop_fold_inv:
  assumes p: "\<And>events s w. I s \<Longrightarrow>
        p events s w = Inr (q events s w) \<and> I (fst (snd (q events s w)))"
    and n: "n = batchSize (length evs)"
    and "I ebSink"
  shows "exportLoop e evs p n i ebSink w =
     Inr (foldl (dispatchChunk e q) (ebSink, w)
            (chunks eventbridgeMaxBatchSize (drop (i * eventbridgeMaxBatchSize) evs)))"
  using assms(3)
proof (induction "n - i" arbitrary: i ebSink w)
  case 0
  then have "\<not> i < n" by simp
  moreover from this n have "length evs \<le> i * eventbridgeMaxBatchSize"
    by (simp add: batchSize_div eventbridgeMaxBatchSize_def)
  ultimately show ?case
    by (simp add: exportLoop_stop)
next
  case (Suc d)
  then have lt: "i < n" by simp
  with n have "i * eventbridgeMaxBatchSize < length evs"
    by (simp add: batchSize_div eventbridgeMaxBatchSize_def)
  then have ne: "drop (i * eventbridgeMaxBatchSize) evs \<noteq> []" by simp
  have k: "0 < eventbridgeMaxBatchSize" by (simp add: eventbridgeMaxBatchSize_def)
  let ?c = "take eventbridgeMaxBatchSize (drop (i * eventbridgeMaxBatchSize) evs)"
  have dd: "drop eventbridgeMaxBatchSize (drop (i * eventbridgeMaxBatchSize) evs)
      = drop ((i + 1) * eventbridgeMaxBatchSize) evs"
    by (simp add: add.commute)
  obtain events w1 where t: "translateChunk e ebSink ?c w = (events, w1)"
    by (cases "translateChunk e ebSink ?c w") blast
  obtain r s2 w2 where qr: "q events ebSink w1 = (r, s2, w2)"
    by (cases "q events ebSink w1") auto
  from p [OF Suc(3), of events w1] qr
  have pr: "p events ebSink w1 = Inr (r, s2, w2)" and inv2: "I s2" by simp_all
  let ?w3 = "case r of None \<Rightarrow> w2 | Some er \<Rightarrow> klog_Error (PutFailed er) w2"
  have d: "dispatchChunk e q (ebSink, w) ?c = (s2, ?w3)"
    by (simp add: dispatchChunk_def t qr split: option.splits)
  have step: "exportLoop e evs p n i ebSink w = exportLoop e evs p n (i + 1) s2 ?w3"
    by (simp add: exportLoop_unfold [OF lt] t pr)
  from Suc(2) have "d = n - (i + 1)" by simp
  from Suc(1) [OF this inv2, of ?w3]
  show ?case
    by (simp only: step chunks_step [OF k ne] d dd foldl_Cons)
qed

lemma putEvents_putEventsResult:
  assumes "sink_inv ebSink"
  shows "putEvents e events ebSink w = Inr (putEventsResult e events ebSink w)
         \<and> sink_inv (fst (snd (putEventsResult e events ebSink w)))"
  using putEvents_inv [OF assms, of e events w]
  by (auto simp: putEventsResult_def)

lemma exportEventsInBatch_fold_putEvents:
  assumes "sink_inv ebSink"
  shows "exportEventsInBatch e batch (putEvents e) ebSink w
           = Inr (foldl (dispatchChunk e (putEventsResult e)) (ebSink, w)
                    (chunks eventbridgeMaxBatchSize (Events batch)))"
  using exportLoop_fold_inv [where I = sink_inv and p = "putEvents e"
      and q = "putEventsResult e" and evs = "Events batch" and i = 0 and e = e and w = w,
      OF putEvents_putEventsResult refl assms]
  by (simp add: exportEventsInBatch_def)

lemma ExportEvents_fold_putEvents:
  assumes "sink_inv ebSink"
  shows "ExportEvents e batch ebSink w
           = Inr (foldl (dispatchChunk e (putEventsResult e)) (ebSink, w)
                    (chunks eventbridgeMaxBatchSize (Events batch)))"
proof (cases "Events batch = []")
  case True
  then show ?thesis by (simp add: ExportEvents_def)
next
  case False
  with exportEventsInBatch_fold_putEvents [OF assms, of e batch w] show ?thesis
    by (simp add: ExportEvents_def)
qed

text \<open>
  C2. From a sink that satisfies the invariant, \<open>ExportEvents\<close> (and
  \<open>exportEventsInBatch\<close> with the sink's own \<open>putEvents\<close>) is the dispatch, one
  after the other and in order, of the chunks of the batch, each handed once to
  \<open>putEvents\<close>; the same holds of \<open>exportEventsInBatch\<close> with any dispatch function
  that returns. There are \<open>\<lceil>N / 16\<rceil>\<close> chunks, none empty and none longer than 16,
  and joined together they are the batch; the events that translate, chunk after chunk,
  are the events of the batch that translate, in their order, and the envelopes handed
  over for a chunk carry their payloads. On the empty batch the dispatch function is not
  called, whatever it is: sink and world come back as they were.
\<close>

theorem exportEventsInBatch_chunks:
  "(sink_inv ebSink \<longrightarrow>
      ExportEvents e batch ebSink w
        = Inr (foldl (dispatchChunk e (putEventsResult e)) (ebSink, w)
                 (chunks eventbridgeMaxBatchSize (Events batch)))
      \<and> exportEventsInBatch e batch (putEvents e) ebSink w
        = Inr (foldl (dispatchChunk e (putEventsResult e)) (ebSink, w)
                 (chunks eventbridgeMaxBatchSize (Events batch)))
      \<and> putEvents e events ebSink w1 = Inr (putEventsResult e events ebSink w1))
   \<and> exportEventsInBatch e batch (returning q) ebSink w
     = Inr (foldl (dispatchChunk e q) (ebSink, w)
              (chunks eventbridgeMaxBatchSize (Events batch)))
   \<and> length (chunks eventbridgeMaxBatchSize (Events batch))
       = nat \<lceil>real (length (Events batch)) / 16\<rceil>
   \<and> concat (chunks eventbridgeMaxBatchSize (Events batch)) = Events batch
   \<and> (\<forall>c \<in> set (chunks eventbridgeMaxBatchSize (Events batch)). c \<noteq> [] \<and> length c \<le> 16)
   \<and> concat (map (translatable e) (chunks eventbridgeMaxBatchSize (Events batch)))
       = translatable e (Events batch)
   \<and> map ce_Data (fst (translateChunk e s c w')) = payloads e c
   \<and> (Events batch = [] \<longrightarrow> exportEventsInBatch e batch p ebSink w = Inr (ebSink, w))
   \<and> (Events batch = [] \<longrightarrow> ExportEvents e batch ebSink w = Inr (ebSink, w))"
proof -
  have k: "0 < eventbridgeMaxBatchSize" by (simp add: eventbridgeMaxBatchSize_def)
  have run: "exportEventsInBatch e batch (returning q) ebSink w
     = Inr (foldl (dispatchChunk e q) (ebSink, w)
              (chunks eventbridgeMaxBatchSize (Events batch)))"
    using exportLoop_fold [OF refl, of e "Events batch" q 0 ebSink w]
    by (simp add: exportEventsInBatch_def)
  have "length (chunks eventbridgeMaxBatchSize (Events batch)) = batchSize (length (Events batch))"
    by (simp add: length_chunks [OF k] batchSize_div) (simp add: eventbridgeMaxBatchSize_def)
  then have count: "length (chunks eventbridgeMaxBatchSize (Events batch))
       = nat \<lceil>real (length (Events batch)) / 16\<rceil>"
    by (simp add: batchSize_def eventbridgeMaxBatchSize_def)
  have cat: "concat (chunks eventbridgeMaxBatchSize (Events batch)) = Events batch"
    by (rule concat_chunks [OF k])
  have bounds: "\<forall>c \<in> set (chunks eventbridgeMaxBatchSize (Events batch)). c \<noteq> [] \<and> length c \<le> 16"
    using chunks_bounds [OF k, of _ "Events batch"] by (simp add: eventbridgeMaxBatchSize_def)
  have order: "concat (map (translatable e) (chunks eventbridgeMaxBatchSize (Events batch)))
       = translatable e (Events batch)"
    using filter_concat [of "\<lambda>ev. \<not> isl (json_Marshal e ev)"
        "chunks eventbridgeMaxBatchSize (Events batch)"] cat
    by (simp add: translatable_def [abs_def])
  have data: "map ce_Data (fst (translateChunk e s c w')) = payloads e c"
    by (simp add: translateChunk_facts)
  have none: "Events batch = [] \<longrightarrow> exportEventsInBatch e batch p ebSink w = Inr (ebSink, w)"
    by (simp add: exportEventsInBatch_def batchSize_div exportLoop_stop)
  have none': "Events batch = [] \<longrightarrow> ExportEvents e batch ebSink w = Inr (ebSink, w)"
    by (simp add: ExportEvents_def)
  have real: "sink_inv ebSink \<longrightarrow>
      ExportEvents e batch ebSink w
        = Inr (foldl (dispatchChunk e (putEventsResult e)) (ebSink, w)
                 (chunks eventbridgeMaxBatchSize (Events batch)))
      \<and> exportEventsInBatch e batch (putEvents e) ebSink w
        = Inr (foldl (dispatchChunk e (putEventsResult e)) (ebSink, w)
                 (chunks eventbridgeMaxBatchSize (Events batch)))
      \<and> putEvents e events ebSink w1 = Inr (putEventsResult e events ebSink w1)"
    using ExportEvents_fold_putEvents [of ebSink e batch w]
      exportEventsInBatch_fold_putEvents [of ebSink e batch w]
      putEvents_putEventsResult [of ebSink e events w1]
    by blast
  from real run count cat bounds order data none none' show ?thesis by blast
qed

lemma parse_1300: "parseUTC ''2006-01-02T15:04:05Z'' ''2026-11-01T13:00:00Z'' = Inr (noon + 60 * Minute)"
  by code_simp

lemma translateChunk_env0_world:
  "\<forall>ev \<in> set evs. ev_payload ev \<noteq> ''NaN'' \<Longrightarrow>
     snd (translateChunk env0 s evs w) = w\<lparr>ticks := ticks w + 2 * length evs\<rparr>"
proof (induction evs arbitrary: w)
  case Nil
  show ?case by simp
next
  case (Cons ev evs)
  then have "json_Marshal env0 ev = Inr (ev_Name ev @ '':'' @ ev_payload ev)" by simp
  from toCloudEvent_ok [OF this, of s w] obtain cloudEvent where
    t: "toCloudEvent env0 s ev w = (Inr cloudEvent, tick (tick w))" by blast
  from Cons have "snd (translateChunk env0 s evs (tick (tick w)))
      = (tick (tick w))\<lparr>ticks := ticks (tick (tick w)) + 2 * length evs\<rparr>"
    by simp
  then show ?case
    by (cases "translateChunk env0 s evs (tick (tick w))") (simp add: t tick_def)
qed

lemma first_chunk_of_17:
  "dispatchChunk env0 (putEventsResult env0) (sink0, world0) (replicate 16 (podEvent ''a'' ''x''))
     = (sink0\<lparr>client := Some (Client (clientConfig client0) 33),
              akInfo := Some (akUntil ''2026-11-01T13:00:00Z'')\<rparr>,
        \<lparr>ticks = 35, klog = []\<rparr>)"
proof -
  let ?c = "replicate 16 (podEvent ''a'' ''x'')"
  have "snd (translateChunk env0 sink0 ?c world0) = world0\<lparr>ticks := ticks world0 + 2 * length ?c\<rparr>"
    by (rule translateChunk_env0_world) (simp add: podEvent_def)
  then obtain events where t: "translateChunk env0 sink0 ?c world0 = (events, \<lparr>ticks = 32, klog = []\<rparr>)"
    by (cases "translateChunk env0 sink0 ?c world0") (simp add: world0_def)
  have "putEventsResult env0 events sink0 \<lparr>ticks = 32, klog = []\<rparr>
      = (None, sink0\<lparr>client := Some (Client (clientConfig client0) 33),
              akInfo := Some (akUntil ''2026-11-01T13:00:00Z'')\<rparr>, \<lparr>ticks = 35, klog = []\<rparr>)"
    by (simp add: putEventsResult_def putEvents_def getClient_def newClient_def Let_def tick_def
        Sprintf_endpoint client0_def akUntil_def)
  with t show ?thesis by (simp add: dispatchChunk_def)
qed

lemma second_chunk_of_17:
  "dispatchChunk env0 (putEventsResult env0)
     (sink0\<lparr>client := Some (Client (clientConfig client0) 33),
            akInfo := Some (akUntil ''2026-11-01T13:00:00Z'')\<rparr>,
      \<lparr>ticks = 35, klog = []\<rparr>) [podEvent ''a'' ''x'']
     = (sink0\<lparr>client := Some (Client (clientConfig client0) 33),
              akInfo := Some (akUntil ''2026-11-01T13:00:00Z'')\<rparr>,
        \<lparr>ticks = 40, klog = []\<rparr>)"
proof -
  let ?s = "sink0\<lparr>client := Some (Client (clientConfig client0) 33),
            akInfo := Some (akUntil ''2026-11-01T13:00:00Z'')\<rparr>"
  let ?c = "[podEvent ''a'' ''x'']"
  let ?w = "\<lparr>ticks = 35, klog = []\<rparr>"
  have "snd (translateChunk env0 ?s ?c ?w) = ?w\<lparr>ticks := ticks ?w + 2 * length ?c\<rparr>"
    by (rule translateChunk_env0_world) (simp add: podEvent_def)
  then obtain events where t: "translateChunk env0 ?s ?c ?w = (events, \<lparr>ticks = 37, klog = []\<rparr>)"
    by (cases "translateChunk env0 ?s ?c ?w") simp
  have v: "isAkValid env0 ?s \<lparr>ticks = 37, klog = []\<rparr> = Inr (True, \<lparr>ticks = 39, klog = []\<rparr>)"
    by (simp add: parse_1300 isAkValid_def Let_def Before_def tick_def Minute_def akUntil_def)
  have "putEventsResult env0 events ?s \<lparr>ticks = 37, klog = []\<rparr>
      = (None, ?s, \<lparr>ticks = 40, klog = []\<rparr>)"
    by (simp add: putEventsResult_def putEvents_def getClient_def v tick_def)
  with t show ?thesis by (simp add: dispatchChunk_def)
qed

theorem exportEventsInBatch_chunks_witness:
  "sink_inv sink0
   \<and> ExportEvents env0 \<lparr>Timestamp = noon, Events = replicate 17 (podEvent ''a'' ''x'')\<rparr>
        sink0 world0
       = Inr (sink0\<lparr>client := Some (Client (clientConfig client0) 33),
                    akInfo := Some (akUntil ''2026-11-01T13:00:00Z'')\<rparr>,
              \<lparr>ticks = 40, klog = []\<rparr>)
   \<and> length (chunks eventbridgeMaxBatchSize (replicate 17 (podEvent ''a'' ''x''))) = 2
   \<and> length (replicate 16 (podEvent ''a'' ''x'')) \<le> 16
   \<and> length [podEvent ''a'' ''x''] \<le> 16
   \<and> nat \<lceil>real (17::nat) / 16\<rceil> = 2
   \<and> exportEventsInBatch env0 \<lparr>Timestamp = noon, Events = []\<rparr> (putEvents env0) sink0 world0
       = Inr (sink0, world0)
   \<and> ExportEvents env0 \<lparr>Timestamp = noon, Events = []\<rparr> sink0 world0 = Inr (sink0, world0)"
proof -
  let ?b = "\<lparr>Timestamp = noon, Events = replicate 17 (podEvent ''a'' ''x'')\<rparr>"
  let ?z = "\<lparr>Timestamp = noon, Events = []\<rparr>"
  note t = exportEventsInBatch_chunks [where batch = ?b and e = env0 and ebSink = sink0
      and w = world0 and q = "\<lambda>events s w. (None, s, w)" and p = "putEvents env0"
      and s = sink0 and c = "[]" and w' = world0 and events = "[]" and ?w1.0 = world0]
  note z = exportEventsInBatch_chunks [where batch = ?z and e = env0 and ebSink = sink0
      and w = world0 and q = "\<lambda>events s w. (None, s, w)" and p = "putEvents env0"
      and s = sink0 and c = "[]" and w' = world0 and events = "[]" and ?w1.0 = world0]
  have inv: "sink_inv sink0" by (simp add: sink_inv_def)
  have c: "chunks eventbridgeMaxBatchSize (Events ?b)
      = [replicate 16 (podEvent ''a'' ''x''), [podEvent ''a'' ''x'']]"
    by (simp add: chunks_17)
  from t [THEN conjunct1] inv
  have "ExportEvents env0 ?b sink0 world0
      = Inr (foldl (dispatchChunk env0 (putEventsResult env0)) (sink0, world0)
               (chunks eventbridgeMaxBatchSize (Events ?b)))"
    by blast
  then have run: "ExportEvents env0 ?b sink0 world0
       = Inr (sink0\<lparr>client := Some (Client (clientConfig client0) 33),
                    akInfo := Some (akUntil ''2026-11-01T13:00:00Z'')\<rparr>,
              \<lparr>ticks = 40, klog = []\<rparr>)"
    by (simp only: c foldl_Cons foldl_Nil first_chunk_of_17 second_chunk_of_17)
  from t [THEN conjunct2, THEN conjunct2, THEN conjunct1]
  have n: "nat \<lceil>real (17::nat) / 16\<rceil> = 2"
    by (simp only: c) simp
  from t [THEN conjunct2, THEN conjunct2, THEN conjunct2, THEN conjunct2, THEN conjunct1]
  have b: "\<forall>c \<in> set [replicate 16 (podEvent ''a'' ''x''), [podEvent ''a'' ''x'']]. c \<noteq> [] \<and> length c \<le> 16"
    by (simp only: c)
  from z [THEN conjunct2, THEN conjunct2, THEN conjunct2, THEN conjunct2, THEN conjunct2,
      THEN conjunct2, THEN conjunct2]
  have "exportEventsInBatch env0 ?z (putEvents env0) sink0 world0 = Inr (sink0, world0)"
    "ExportEvents env0 ?z sink0 world0 = Inr (sink0, world0)"
    by simp_all
  moreover from b have "length (replicate 16 (podEvent ''a'' ''x'')) \<le> 16"
    "length [podEvent ''a'' ''x''] \<le> 16"
    by simp_all
  moreover have "length (chunks eventbridgeMaxBatchSize (replicate 17 (podEvent ''a'' ''x''))) = 2"
    using c by simp
  ultimately show ?thesis using n inv run by blast
qed

text \<open>
  C3. From a sink whose cached client, if any, comes with its credential,
  \<open>ExportEvents\<close> returns, for every batch and every environment, that is, however
  serialisation, credential fetch, client construction and dispatch fail; its result
  carries no error, and the sink it leaves is again such a sink. A failed dispatch does
  not stop the loop: with any dispatch function that returns, failing or not, the run is
  the dispatch of every chunk in turn; and when the SDK rejects every call, the log ends
  with one more dispatch failure for each of the \<open>\<lceil>N / 16\<rceil>\<close> chunks.
\<close>

theorem ExportEvents_returns:
  assumes "sink_inv ebSink"
  shows "(\<exists>s' w'. ExportEvents e batch ebSink w = Inr (s', w') \<and> sink_inv s'
            \<and> ((\<forall>n c evs rt. PutEventsWithOptions e n c evs rt \<noteq> None) \<longrightarrow>
                  putFailures w' = putFailures w + nat \<lceil>real (length (Events batch)) / 16\<rceil>))
         \<and> exportEventsInBatch e batch (returning q) ebSink w
             = Inr (foldl (dispatchChunk e q) (ebSink, w)
                      (chunks eventbridgeMaxBatchSize (Events batch)))"
  using ExportEvents_putEvents [OF assms, of e batch w]
    exportLoop_fold [OF refl, of e "Events batch" q 0 ebSink w]
  by (simp add: exportEventsInBatch_def)

theorem ExportEvents_returns_witness:
  "sink_inv sink0
   \<and> (\<exists>s' w'. ExportEvents
          (env0\<lparr>PutEventsWithOptions := \<lambda>n c events runtime. Some (Error ''throttled'')\<rparr>)
          \<lparr>Timestamp = noon, Events = replicate 17 (podEvent ''a'' ''x'')\<rparr> sink0 world0
            = Inr (s', w')
        \<and> sink_inv s' \<and> putFailures w' = 2)"
proof -
  let ?e = "env0\<lparr>PutEventsWithOptions := \<lambda>n c events runtime. Some (Error ''throttled'')\<rparr>"
  let ?b = "\<lparr>Timestamp = noon, Events = replicate 17 (podEvent ''a'' ''x'')\<rparr>"
  have inv: "sink_inv sink0" by (simp add: sink_inv_def)
  have fail: "\<forall>n c evs rt. PutEventsWithOptions ?e n c evs rt \<noteq> None" by simp
  have zero: "putFailures world0 = 0" by (simp add: putFailures_def)
  from ExportEvents_returns [OF inv, of ?e ?b world0 "\<lambda>events s w. (None, s, w)"]
  obtain s' w' where "ExportEvents ?e ?b sink0 world0 = Inr (s', w')" "sink_inv s'"
    "putFailures w' = putFailures world0 + nat \<lceil>real (length (Events ?b)) / 16\<rceil>"
    using fail by blast
  then show ?thesis using inv zero ceiling_17 by simp
qed

text \<open>
  C10. The constructor returns a sink without client and credential, and
  \<open>newClient\<close>, \<open>getClient\<close>, \<open>putEvents\<close>, \<open>exportEventsInBatch\<close>,
  \<open>ExportEvents\<close> and \<open>Stop\<close> keep the invariant that a cached client comes with a
  cached credential; the other methods do not write the sink. Under the invariant
  none of them panics: the freshness check, run only when a client is cached, finds a
  credential, and without a cached client \<open>getClient\<close> goes to \<open>newClient\<close>
  without running the check.
\<close>

theorem sink_inv_preserved:
  "(NewEventBridgeSink e uri w = (Inr s0, w0) \<longrightarrow> sink_inv s0)
   \<and> (sink_inv ebSink \<longrightarrow>
        sink_inv (fst (snd (newClient e ebSink w)))
        \<and> (\<exists>r s' w'. getClient e ebSink w = Inr (r, s', w') \<and> sink_inv s')
        \<and> (\<exists>r s' w'. putEvents e events ebSink w = Inr (r, s', w') \<and> sink_inv s')
        \<and> (\<exists>s' w'. exportEventsInBatch e batch (putEvents e) ebSink w = Inr (s', w') \<and> sink_inv s')
        \<and> (\<exists>s' w'. ExportEvents e batch ebSink w = Inr (s', w') \<and> sink_inv s')
        \<and> sink_inv (fst (Stop ebSink w))
        \<and> (client ebSink \<noteq> None \<longrightarrow> (\<exists>valid w'. isAkValid e ebSink w = Inr (valid, w')))
        \<and> (client ebSink = None \<longrightarrow> getClient e ebSink w = Inr (newClient e ebSink w)))"
proof -
  have ctor: "NewEventBridgeSink e uri w = (Inr s0, w0) \<longrightarrow> sink_inv s0"
    by (auto simp: NewEventBridgeSink_def Let_def sink_inv_def split: if_splits sum.splits)
  have rest: "sink_inv (fst (snd (newClient e ebSink w)))
        \<and> (\<exists>r s' w'. getClient e ebSink w = Inr (r, s', w') \<and> sink_inv s')
        \<and> (\<exists>r s' w'. putEvents e events ebSink w = Inr (r, s', w') \<and> sink_inv s')
        \<and> (\<exists>s' w'. exportEventsInBatch e batch (putEvents e) ebSink w = Inr (s', w') \<and> sink_inv s')
        \<and> (\<exists>s' w'. ExportEvents e batch ebSink w = Inr (s', w') \<and> sink_inv s')
        \<and> sink_inv (fst (Stop ebSink w))
        \<and> (client ebSink \<noteq> None \<longrightarrow> (\<exists>valid w'. isAkValid e ebSink w = Inr (valid, w')))
        \<and> (client ebSink = None \<longrightarrow> getClient e ebSink w = Inr (newClient e ebSink w))"
    if inv: "sink_inv ebSink"
  proof -
    from newClient_inv [OF inv, of e w] have a: "sink_inv (fst (snd (newClient e ebSink w)))"
      by auto
    from getClient_inv [OF inv, of e w]
    have b: "\<exists>r s' w'. getClient e ebSink w = Inr (r, s', w') \<and> sink_inv s'" by blast
    from putEvents_inv [OF inv, of e events w]
    have c: "\<exists>r s' w'. putEvents e events ebSink w = Inr (r, s', w') \<and> sink_inv s'" by blast
    from exportEventsInBatch_putEvents [OF inv, of e batch w]
    have d: "\<exists>s' w'. exportEventsInBatch e batch (putEvents e) ebSink w = Inr (s', w') \<and> sink_inv s'"
      by blast
    from ExportEvents_putEvents [OF inv, of e batch w]
    have d': "\<exists>s' w'. ExportEvents e batch ebSink w = Inr (s', w') \<and> sink_inv s'" by blast
    have f: "sink_inv (fst (Stop ebSink w))" using inv by (simp add: Stop_def)
    have g: "client ebSink \<noteq> None \<longrightarrow> (\<exists>valid w'. isAkValid e ebSink w = Inr (valid, w'))"
      using inv isAkValid_returns [of ebSink e w] by (auto simp: sink_inv_def)
    have h: "client ebSink = None \<longrightarrow> getClient e ebSink w = Inr (newClient e ebSink w)"
      by (simp add: getClient_def)
    from a b c d d' f g h show ?thesis by blast
  qed
  from ctor rest show ?thesis by blast
qed


theorem sink_inv_preserved_witness:
  "sink_inv sink0
   \<and> sink_inv (sinkUntil ''soon'')
   \<and> getClient env0 sink0 world0 = Inr (newClient env0 sink0 world0)
   \<and> (\<exists>valid w'. isAkValid env0 (sinkUntil ''soon'') world0 = Inr (valid, w'))
   \<and> (\<exists>s' w'. ExportEvents env0 \<lparr>Timestamp = noon, Events = [podEvent ''a'' ''x'']\<rparr>
                  (sinkUntil ''soon'') world0 = Inr (s', w') \<and> sink_inv s')"
proof -
  let ?uri = "\<lparr>Query = [''clusterId'' \<mapsto> [''c0ffee'']]\<rparr>"
  let ?b = "\<lparr>Timestamp = noon, Events = [podEvent ''a'' ''x'']\<rparr>"
  have ctor: "NewEventBridgeSink env0 ?uri world0 = (Inr sink0, tick (tick world0))"
    by (simp add: NewEventBridgeSink_def Let_def tick_def sink0_def)
  have inv': "sink_inv (sinkUntil ''soon'')" by (simp add: sink_inv_def)
  have cl: "client (sinkUntil ''soon'') \<noteq> None" by simp
  note t0 = sink_inv_preserved [where e = env0 and uri = ?uri and w = world0 and ?s0.0 = sink0
      and ?w0.0 = "tick (tick world0)" and ebSink = sink0 and batch = ?b and events = "[]"]
  note t1 = sink_inv_preserved [where e = env0 and uri = ?uri and w = world0 and ?s0.0 = sink0
      and ?w0.0 = "tick (tick world0)" and ebSink = "sinkUntil ''soon''" and batch = ?b
      and events = "[]"]
  from t0 ctor have inv: "sink_inv sink0" by blast
  from t0 inv have g: "getClient env0 sink0 world0 = Inr (newClient env0 sink0 world0)"
    by simp
  from t1 inv' cl have v: "\<exists>valid w'. isAkValid env0 (sinkUntil ''soon'') world0 = Inr (valid, w')"
    by blast
  from t1 inv' have x: "\<exists>s' w'. ExportEvents env0 ?b (sinkUntil ''soon'') world0 = Inr (s', w')
      \<and> sink_inv s'"
    by blast
  from inv inv' g v x show ?thesis by blast
qed


end
